theory Spec2Isabelle
  imports Complex_Main "HOL-Library.Multiset"
begin

section \<open>The music player script: data model\<close>

text \<open>
  The script \<^verbatim>\<open>src/bin/music_player.py\<close> scans a directory for \<^verbatim>\<open>.wav\<close> files,
  concatenates them with an external transcoder when their checksum changed, and plays the
  result, forever. Paths, text and file contents are byte strings. Text files are
  modelled at the byte level, which is exact for the ASCII text that the script itself
  writes to its checksum file.
\<close>

type_synonym path = string
type_synonym bytes = string

text \<open>The exceptions that the modelled part of the script can raise.\<close>

datatype error =
    FileNotFoundError path
  | IsADirectoryError path
  | CalledProcessError int "string list"

text \<open>
  A path names a regular file with its contents, or a directory. The result of
  \<^verbatim>\<open>os.walk\<close> and the time stamps that \<^verbatim>\<open>os.path.getmtime\<close> returns are
  components of their own: the script never reads the time stamp of a file it wrote, and
  the listing may disagree with the files (a file can vanish after it was listed, a
  dangling symbolic link is listed and has no time stamp).
\<close>

datatype node = File bytes | Dir

record filesystem =
  nodes :: "path \<rightharpoonup> node"
  walk :: "path \<Rightarrow> (path \<times> path list \<times> path list) list"
  getmtime :: "path \<rightharpoonup> rat"

text \<open>The configuration constants, lines 7 to 10.\<close>

definition music_dir :: path where
  "music_dir = ''/Volumes/BrahmaSSD/music/AiGen''"

definition output_file :: path where
  "output_file = ''/tmp/combined_playlist.wav''"

definition playlist_file :: path where
  "playlist_file = ''/tmp/ffmpeg_playlist.txt''"

definition checksum_file :: path where
  "checksum_file = ''/tmp/playlist_checksum.txt''"

section \<open>Directory scanner\<close>

text \<open>\<^verbatim>\<open>str.endswith\<close>: an exact comparison of the last characters.\<close>

definition endswith :: "string \<Rightarrow> string \<Rightarrow> bool" where
  "endswith s suf \<longleftrightarrow>
     length suf \<le> length s \<and> drop (length s - length suf) s = suf"

text \<open>\<^verbatim>\<open>os.path.join\<close> of the POSIX path module, for two components.\<close>

definition sep :: char where
  "sep = CHR ''/''"

definition path_join :: "path \<Rightarrow> path \<Rightarrow> path" where
  "path_join a b =
     (if b \<noteq> [] \<and> hd b = sep then b
      else if a = [] \<or> last a = sep then a @ b
      else a @ [sep] @ b)"

text \<open>
  The two nested loops of lines 14 to 18, with the list \<^verbatim>\<open>files\<close> as accumulator:
  the inner loop over the file names of one directory, the outer loop over the triples
  that \<^verbatim>\<open>os.walk\<close> yields.
\<close>

fun scan_filenames :: "path \<Rightarrow> string \<Rightarrow> path list \<Rightarrow> path list \<Rightarrow> path list" where
  "scan_filenames root_dir extension [] files = files"
| "scan_filenames root_dir extension (filename # rest) files =
     scan_filenames root_dir extension rest
       (if endswith filename extension then files @ [path_join root_dir filename] else files)"

fun scan_walk :: "string \<Rightarrow> (path \<times> path list \<times> path list) list \<Rightarrow> path list \<Rightarrow> path list" where
  "scan_walk extension [] files = files"
| "scan_walk extension ((root_dir, dirs, filenames) # rest) files =
     scan_walk extension rest (scan_filenames root_dir extension filenames files)"

text \<open>
  \<^verbatim>\<open>sorted(files, key=os.path.getmtime)\<close>: the key of every element is computed
  first, in list order, and the first path without a time stamp raises; then the list is
  sorted by a stable sort.
\<close>

definition sorted_by_mtime :: "filesystem \<Rightarrow> path list \<Rightarrow> error + path list" where
  "sorted_by_mtime fs files =
     (case find (\<lambda>p. getmtime fs p = None) files of
        Some p \<Rightarrow> Inl (FileNotFoundError p)
      | None \<Rightarrow> Inr (sort_key (\<lambda>p. the (getmtime fs p)) files))"

definition get_files_sorted_by_mtime :: "filesystem \<Rightarrow> path \<Rightarrow> string \<Rightarrow> error + path list" where
  "get_files_sorted_by_mtime fs directory extension =
     sorted_by_mtime fs (scan_walk extension (walk fs directory) [])"

text \<open>
  What the scanner is to return: the joined path of every listed file name that ends with
  the extension, directory by directory.
\<close>

definition matching_paths :: "(path \<times> path list \<times> path list) list \<Rightarrow> string \<Rightarrow> path list" where
  "matching_paths triples extension =
     concat (map (\<lambda>(root_dir, dirs, filenames).
       map (path_join root_dir) (filter (\<lambda>filename. endswith filename extension) filenames)) triples)"



section \<open>File primitives\<close>

text \<open>
  \<^verbatim>\<open>os.path.exists\<close>, and \<^verbatim>\<open>open\<close> for reading and for writing. Opening a missing
  path for reading raises \<^verbatim>\<open>FileNotFoundError\<close>, opening a directory raises
  \<^verbatim>\<open>IsADirectoryError\<close>; opening for writing creates the file or truncates it.
  Failures of permissions, of a missing parent directory and of a full disk are not
  modelled.
\<close>

definition path_exists :: "filesystem \<Rightarrow> path \<Rightarrow> bool" where
  "path_exists fs p \<longleftrightarrow> nodes fs p \<noteq> None"

definition open_read :: "filesystem \<Rightarrow> path \<Rightarrow> error + bytes" where
  "open_read fs p =
     (case nodes fs p of
        None \<Rightarrow> Inl (FileNotFoundError p)
      | Some Dir \<Rightarrow> Inl (IsADirectoryError p)
      | Some (File content) \<Rightarrow> Inr content)"

definition open_write :: "filesystem \<Rightarrow> path \<Rightarrow> error + filesystem" where
  "open_write fs p =
     (case nodes fs p of
        Some Dir \<Rightarrow> Inl (IsADirectoryError p)
      | _ \<Rightarrow> Inr (fs\<lparr>nodes := (nodes fs)(p \<mapsto> File [])\<rparr>))"

text \<open>\<^verbatim>\<open>write\<close> on a file that is open for writing appends to what was written before.\<close>

definition file_write :: "filesystem \<Rightarrow> path \<Rightarrow> string \<Rightarrow> filesystem" where
  "file_write fs p s =
     (case nodes fs p of
        Some (File content) \<Rightarrow> fs\<lparr>nodes := (nodes fs)(p \<mapsto> File (content @ s))\<rparr>
      | _ \<Rightarrow> fs)"

section \<open>Playlist builder\<close>

definition quote :: char where
  "quote = CHR 0x27"

definition newline :: char where
  "newline = CHR 0x0A"

text \<open>The formatted string of line 24: the path between single quotes, as it is.\<close>

definition playlist_line :: "path \<Rightarrow> string" where
  "playlist_line file = ''file '' @ [quote] @ file @ [quote] @ [newline]"

fun write_lines :: "path \<Rightarrow> path list \<Rightarrow> filesystem \<Rightarrow> filesystem" where
  "write_lines playlist_path [] fs = fs"
| "write_lines playlist_path (file # rest) fs =
     write_lines playlist_path rest (file_write fs playlist_path (playlist_line file))"

definition generate_playlist :: "filesystem \<Rightarrow> path list \<Rightarrow> path \<Rightarrow> error + filesystem" where
  "generate_playlist fs files playlist_path =
     (case open_write fs playlist_path of
        Inl e \<Rightarrow> Inl e
      | Inr fs1 \<Rightarrow> Inr (write_lines playlist_path files fs1))"


section \<open>Checksum\<close>

text \<open>
  The hash object of \<^verbatim>\<open>hashlib.md5\<close> is a parameter: its initial state, its
  \<^verbatim>\<open>update\<close> and its \<^verbatim>\<open>hexdigest\<close>. The library documents that repeated calls of
  \<^verbatim>\<open>update\<close> are equivalent to one call with the concatenation of the arguments, and
  that \<^verbatim>\<open>hexdigest\<close> returns hexadecimal digits only.
\<close>

record 's hasher =
  md5_new :: 's
  md5_update :: "'s \<Rightarrow> bytes \<Rightarrow> 's"
  md5_hexdigest :: "'s \<Rightarrow> string"

definition streaming :: "'s hasher \<Rightarrow> bool" where
  "streaming md5 \<longleftrightarrow>
     (\<forall>h. md5_update md5 h [] = h)
     \<and> (\<forall>h a b. md5_update md5 (md5_update md5 h a) b = md5_update md5 h (a @ b))"

definition is_hex :: "string \<Rightarrow> bool" where
  "is_hex s \<longleftrightarrow> list_all (\<lambda>c. c \<in> set ''0123456789abcdef'') s"

definition hex_output :: "'s hasher \<Rightarrow> bool" where
  "hex_output md5 \<longleftrightarrow> (\<forall>h. is_hex (md5_hexdigest md5 h))"

text \<open>A file object that is open for reading: the contents and the position.\<close>

record fileobj =
  content :: bytes
  pos :: nat

definition open_rb :: "filesystem \<Rightarrow> path \<Rightarrow> error + fileobj" where
  "open_rb fs p =
     (case open_read fs p of
        Inl e \<Rightarrow> Inl e
      | Inr b \<Rightarrow> Inr \<lparr>content = b, pos = 0\<rparr>)"

definition read :: "fileobj \<Rightarrow> nat \<Rightarrow> bytes \<times> fileobj" where
  "read f n =
     (let chunk = take n (drop (pos f) (content f))
      in (chunk, f\<lparr>pos := pos f + length chunk\<rparr>))"

text \<open>
  Lines 30 and 31: \<^verbatim>\<open>iter(lambda: f.read(4096), b"")\<close> reads chunk after chunk until
  a read returns the empty byte string, and every chunk updates the hash.
\<close>

function read_loop :: "'s hasher \<Rightarrow> nat \<Rightarrow> fileobj \<Rightarrow> 's \<Rightarrow> 's" where
  "read_loop md5 n f hash_md5 =
     (case read f n of
        (chunk, f') \<Rightarrow>
          if chunk = [] then hash_md5
          else read_loop md5 n f' (md5_update md5 hash_md5 chunk))"
  by pat_completeness auto
termination
proof (relation "measure (\<lambda>(md5, n, f, h). length (content f) - pos f)", goal_cases)
  case 1
  show ?case
    by simp
next
  case (2 md5 n f hash_md5 chunk f')
  then have c: "chunk = take n (drop (pos f) (content f))"
    and f': "f' = f\<lparr>pos := pos f + length chunk\<rparr>"
    by (simp_all add: read_def Let_def)
  from c \<open>chunk \<noteq> []\<close> have "0 < length chunk"
    by simp
  moreover from c have "length chunk \<le> length (content f) - pos f"
    by simp
  ultimately have "length (content f) - (pos f + length chunk) < length (content f) - pos f"
    by arith
  with f' show ?case
    by simp
qed

text \<open>The loop over the files of lines 28 to 31, for a chunk size \<open>n\<close>.\<close>

fun hash_files :: "'s hasher \<Rightarrow> nat \<Rightarrow> filesystem \<Rightarrow> path list \<Rightarrow> 's \<Rightarrow> error + 's" where
  "hash_files md5 n fs [] hash_md5 = Inr hash_md5"
| "hash_files md5 n fs (file # rest) hash_md5 =
     (case open_rb fs file of
        Inl e \<Rightarrow> Inl e
      | Inr f \<Rightarrow> hash_files md5 n fs rest (read_loop md5 n f hash_md5))"

definition calculate_checksum_chunked ::
  "'s hasher \<Rightarrow> nat \<Rightarrow> filesystem \<Rightarrow> path list \<Rightarrow> error + string" where
  "calculate_checksum_chunked md5 n fs files =
     (case hash_files md5 n fs files (md5_new md5) of
        Inl e \<Rightarrow> Inl e
      | Inr hash_md5 \<Rightarrow> Inr (md5_hexdigest md5 hash_md5))"

text \<open>The function of the script reads chunks of 4096 bytes.\<close>

definition calculate_checksum :: "'s hasher \<Rightarrow> filesystem \<Rightarrow> path list \<Rightarrow> error + string" where
  "calculate_checksum md5 fs files = calculate_checksum_chunked md5 4096 fs files"

section \<open>Checksum cache\<close>

text \<open>
  Reading in text mode translates the line ends \<^verbatim>\<open>\r\n\<close> and \<^verbatim>\<open>\r\<close> to
  \<^verbatim>\<open>\n\<close>; \<^verbatim>\<open>str.strip\<close> removes leading and trailing whitespace, which in ASCII
  are the characters 9 to 13, 28 to 31 and the space.
\<close>

definition carriage_return :: char where
  "carriage_return = CHR 0x0D"

fun universal_newlines :: "string \<Rightarrow> string" where
  "universal_newlines [] = []"
| "universal_newlines [c] = [if c = carriage_return then newline else c]"
| "universal_newlines (c # d # cs) =
     (if c = carriage_return \<and> d = newline then newline # universal_newlines cs
      else if c = carriage_return then newline # universal_newlines (d # cs)
      else c # universal_newlines (d # cs))"

definition isspace :: "char \<Rightarrow> bool" where
  "isspace c \<longleftrightarrow>
     (let n = (of_char c :: nat) in (9 \<le> n \<and> n \<le> 13) \<or> (28 \<le> n \<and> n \<le> 32))"

definition strip :: "string \<Rightarrow> string" where
  "strip s = rev (dropWhile isspace (rev (dropWhile isspace s)))"

definition read_previous_checksum :: "filesystem \<Rightarrow> path \<Rightarrow> error + string" where
  "read_previous_checksum fs checksum_path =
     (case open_read fs checksum_path of
        Inl (FileNotFoundError p) \<Rightarrow> Inr []
      | Inl e \<Rightarrow> Inl e
      | Inr text \<Rightarrow> Inr (strip (universal_newlines text)))"

definition write_new_checksum :: "filesystem \<Rightarrow> string \<Rightarrow> path \<Rightarrow> error + filesystem" where
  "write_new_checksum fs checksum checksum_path =
     (case open_write fs checksum_path of
        Inl e \<Rightarrow> Inl e
      | Inr fs1 \<Rightarrow> Inr (file_write fs1 checksum_path checksum))"

section \<open>A small hash function and a music directory for the examples\<close>

text \<open>
  A hash function with the interface of \<^verbatim>\<open>hashlib\<close>: the state is a byte, every
  input byte is folded into it, and the digest is the state as two hexadecimal digits.
\<close>

definition hexdigit :: "nat \<Rightarrow> char" where
  "hexdigit n = ''0123456789abcdef'' ! (n mod 16)"

definition demo_md5 :: "nat hasher" where
  "demo_md5 = \<lparr>md5_new = 0,
     md5_update = foldl (\<lambda>h c. (3 * h + of_char c) mod 256),
     md5_hexdigest = (\<lambda>h. [hexdigit (h div 16), hexdigit h])\<rparr>"

text \<open>
  The music directory holds three files, listed in the order \<open>c\<close>, \<open>a\<close>, \<open>b\<close> and
  modified in the order \<open>a\<close>, \<open>b\<close>, \<open>c\<close>.
\<close>

definition wav_a :: path where
  "wav_a = music_dir @ ''/a.wav''"

definition wav_b :: path where
  "wav_b = music_dir @ ''/b.wav''"

definition wav_c :: path where
  "wav_c = music_dir @ ''/c.wav''"

definition demo_disk :: filesystem where
  "demo_disk = \<lparr>
     nodes = [wav_a \<mapsto> File ''RIFFa'', wav_b \<mapsto> File ''RIFFbb'', wav_c \<mapsto> File []],
     walk = (\<lambda>d. if d = music_dir then [(music_dir, [], [''c.wav'', ''a.wav'', ''b.wav''])] else []),
     getmtime = [wav_a \<mapsto> 1, wav_b \<mapsto> 2, wav_c \<mapsto> 3]\<rparr>"

section \<open>Subprocesses and the main loop\<close>

text \<open>
  The observable steps of the script are recorded in a trace: a call of one of the
  functions of the script from the loop, a line printed, a subprocess started. The
  world is the file system and the trace so far.
\<close>

datatype event =
    Enter string
  | Stdout string
  | Exec "string list"

record world =
  disk :: filesystem
  trace :: "event list"

definition enter :: "string \<Rightarrow> world \<Rightarrow> world" where
  "enter name w = w\<lparr>trace := trace w @ [Enter name]\<rparr>"

definition print :: "string \<Rightarrow> world \<Rightarrow> world" where
  "print s w = w\<lparr>trace := trace w @ [Stdout s]\<rparr>"

text \<open>
  The external programs are a parameter: running a command on a file system gives the
  file system that the command leaves when it exits, and its exit status, or no exit
  status when the program cannot be started. All the time that an iteration takes passes
  in the two subprocesses, so that this file system also holds what other processes
  changed in the meantime.
\<close>

type_synonym subprocess = "string list \<Rightarrow> filesystem \<Rightarrow> int option \<times> filesystem"

text \<open>
  \<^verbatim>\<open>subprocess.run(cmd, check=True)\<close>: a program that cannot be started raises
  \<^verbatim>\<open>FileNotFoundError\<close>, an exit status other than zero raises
  \<^verbatim>\<open>CalledProcessError\<close>. An exception comes with the world in which it is raised.
\<close>

definition subprocess_run :: "subprocess \<Rightarrow> string list \<Rightarrow> world \<Rightarrow> (error \<times> world) + world" where
  "subprocess_run run cmd w =
     (case run cmd (disk w) of
        (None, fs') \<Rightarrow>
          Inl (FileNotFoundError (case cmd of [] \<Rightarrow> [] | program # args \<Rightarrow> program),
               w\<lparr>trace := trace w @ [Exec cmd]\<rparr>)
      | (Some returncode, fs') \<Rightarrow>
          (let w' = \<lparr>disk = fs', trace = trace w @ [Exec cmd]\<rparr>
           in if returncode \<noteq> 0 then Inl (CalledProcessError returncode cmd, w') else Inr w'))"

text \<open>\<^verbatim>\<open>' '.join(cmd)\<close>.\<close>

fun str_join :: "string \<Rightarrow> string list \<Rightarrow> string" where
  "str_join s [] = []"
| "str_join s [x] = x"
| "str_join s (x # y # ys) = x @ s @ str_join s (y # ys)"

definition ffmpeg_cmd :: "path \<Rightarrow> path \<Rightarrow> string list" where
  "ffmpeg_cmd playlist_path output_path =
     [''ffmpeg'', ''-y'', ''-hide_banner'', ''-f'', ''concat'', ''-safe'', ''0'',
      ''-i'', playlist_path, ''-c'', ''copy'', output_path]"

definition concatenate_files :: "subprocess \<Rightarrow> path \<Rightarrow> path \<Rightarrow> world \<Rightarrow> (error \<times> world) + world" where
  "concatenate_files run playlist_path output_path w =
     (let cmd = ffmpeg_cmd playlist_path output_path;
          w1 = print (''Running command:'' @ '' '' @ str_join '' '' cmd) w
      in subprocess_run run cmd w1)"

definition mpv_cmd :: "path \<Rightarrow> string list" where
  "mpv_cmd file_path = [''mpv'', ''--volume=50'', file_path]"

definition play_audio :: "subprocess \<Rightarrow> path \<Rightarrow> world \<Rightarrow> (error \<times> world) + world" where
  "play_audio run file_path w = subprocess_run run (mpv_cmd file_path) w"

text \<open>Lines 62 to 65, the branch that rebuilds the combined file.\<close>

definition regenerate :: "subprocess \<Rightarrow> path list \<Rightarrow> string \<Rightarrow> world \<Rightarrow> (error \<times> world) + world" where
  "regenerate run files current_checksum w =
     (let w1 = print ''Changes detected or output file missing, regenerating...'' w;
          w2 = enter ''generate_playlist'' w1
      in case generate_playlist (disk w2) files playlist_file of
           Inl e \<Rightarrow> Inl (e, w2)
         | Inr fs3 \<Rightarrow>
             (case concatenate_files run playlist_file output_file
                     (enter ''concatenate_files'' (w2\<lparr>disk := fs3\<rparr>)) of
                Inl ew \<Rightarrow> Inl ew
              | Inr w4 \<Rightarrow>
                  (let w5 = enter ''write_new_checksum'' w4
                   in case write_new_checksum (disk w5) current_checksum checksum_file of
                        Inl e \<Rightarrow> Inl (e, w5)
                      | Inr fs6 \<Rightarrow> Inr (w5\<lparr>disk := fs6\<rparr>))))"

text \<open>Lines 58 to 67, the comparison of the checksums and its two branches.\<close>

definition check_and_rebuild ::
  "'s hasher \<Rightarrow> subprocess \<Rightarrow> path list \<Rightarrow> world \<Rightarrow> (error \<times> world) + world" where
  "check_and_rebuild md5 run files w =
     (let w1 = enter ''calculate_checksum'' w
      in case calculate_checksum md5 (disk w1) files of
           Inl e \<Rightarrow> Inl (e, w1)
         | Inr current_checksum \<Rightarrow>
             (let w2 = enter ''read_previous_checksum'' w1
              in case read_previous_checksum (disk w2) checksum_file of
                   Inl e \<Rightarrow> Inl (e, w2)
                 | Inr previous_checksum \<Rightarrow>
                     if current_checksum \<noteq> previous_checksum \<or> \<not> path_exists (disk w2) output_file
                     then regenerate run files current_checksum w2
                     else Inr (print ''No changes detected. Using existing combined audio file.'' w2)))"

text \<open>Lines 54 to 70, the body of the loop.\<close>

definition iteration :: "'s hasher \<Rightarrow> subprocess \<Rightarrow> world \<Rightarrow> (error \<times> world) + world" where
  "iteration md5 run w =
     (let w1 = enter ''get_files_sorted_by_mtime'' w
      in case get_files_sorted_by_mtime (disk w1) music_dir ''.wav'' of
           Inl e \<Rightarrow> Inl (e, w1)
         | Inr files \<Rightarrow>
             if files = [] then Inr (print ''No .wav files found in the directory.'' w1)
             else (case check_and_rebuild md5 run files w1 of
                     Inl ew \<Rightarrow> Inl ew
                   | Inr w2 \<Rightarrow>
                       play_audio run output_file
                         (enter ''play_audio'' (print ''Playing combined playlist...'' w2))))"

text \<open>
  Line 53, \<^verbatim>\<open>while True\<close>: the loop ends only with an exception, which nothing
  catches, and its result is then the exception and the world in which it was raised. A
  loop that runs forever has no result.
\<close>

partial_function (option) main_loop ::
  "'s hasher \<Rightarrow> subprocess \<Rightarrow> world \<Rightarrow> (error \<times> world) option" where
  "main_loop md5 run w =
     (case iteration md5 run w of
        Inl ew \<Rightarrow> Some ew
      | Inr w' \<Rightarrow> main_loop md5 run w')"

text \<open>The events that an iteration adds to the trace, and the world it ends in.\<close>

definition final_world :: "(error \<times> world) + world \<Rightarrow> world" where
  "final_world r = (case r of Inl (e, w) \<Rightarrow> w | Inr w \<Rightarrow> w)"

definition new_events :: "world \<Rightarrow> (error \<times> world) + world \<Rightarrow> event list" where
  "new_events w r = drop (length (trace w)) (trace (final_world r))"

text \<open>
  For the statements about the loop: the file system after the manifest of \<open>files\<close> was
  written, the events of a rebuild up to the start of the transcoder, and the condition
  of line 61.
\<close>

definition manifest_written :: "path list \<Rightarrow> filesystem \<Rightarrow> filesystem" where
  "manifest_written files fs =
     fs\<lparr>nodes := (nodes fs)(playlist_file \<mapsto> File (concat (map playlist_line files)))\<rparr>"

definition rebuild_events :: "event list" where
  "rebuild_events =
     [Stdout ''Changes detected or output file missing, regenerating...'',
      Enter ''generate_playlist'',
      Enter ''concatenate_files'',
      Stdout (''Running command: '' @ str_join '' '' (ffmpeg_cmd playlist_file output_file)),
      Exec (ffmpeg_cmd playlist_file output_file)]"

definition rebuild_needed :: "string \<Rightarrow> string \<Rightarrow> filesystem \<Rightarrow> bool" where
  "rebuild_needed current_checksum previous_checksum fs \<longleftrightarrow>
     current_checksum \<noteq> previous_checksum \<or> \<not> path_exists fs output_file"

text \<open>
  External programs for the examples: the transcoder exits with a given status and, when
  that is zero, leaves a combined file; the player exits with a given status.
\<close>

definition demo_run :: "int \<Rightarrow> int \<Rightarrow> subprocess" where
  "demo_run ffmpeg_status mpv_status cmd fs =
     (if cmd = ffmpeg_cmd playlist_file output_file
      then (Some ffmpeg_status,
            if ffmpeg_status = 0 then fs\<lparr>nodes := (nodes fs)(output_file \<mapsto> File ''RIFFaRIFFbb'')\<rparr>
            else fs)
      else (Some mpv_status, fs))"

definition demo_world :: world where
  "demo_world = \<lparr>disk = demo_disk, trace = []\<rparr>"

text \<open>A music directory without files, for the examples.\<close>

definition silent_world :: world where
  "silent_world = \<lparr>disk = demo_disk\<lparr>walk := \<lambda>d. [(d, [], [])]\<rparr>, trace = []\<rparr>"

text \<open>The events of every iteration that finds files, up to the comparison of line 61.\<close>

definition check_events :: "event list" where
  "check_events =
     [Enter ''get_files_sorted_by_mtime'', Enter ''calculate_checksum'',
      Enter ''read_previous_checksum'']"

definition play_events :: "event list" where
  "play_events = [Stdout ''Playing combined playlist...'', Enter ''play_audio'']"

text \<open>
  The digest of the three music files, and file systems in which the cache holds this
  digest without a combined file, or holds another digest beside a combined file.
\<close>

definition demo_digest :: string where
  "demo_digest = md5_hexdigest demo_md5 (md5_update demo_md5 (md5_new demo_md5) ''RIFFaRIFFbb'')"


definition stale_disk :: filesystem where
  "stale_disk = demo_disk\<lparr>nodes := (nodes demo_disk)
     (checksum_file \<mapsto> File ''abc'', output_file \<mapsto> File ''RIFFa'')\<rparr>"


section \<open>Properties of the scanner\<close>


lemma scan_filenames_eq:
  "scan_filenames root_dir extension filenames files =
     files @ map (path_join root_dir) (filter (\<lambda>filename. endswith filename extension) filenames)"
  by (induction filenames arbitrary: files) simp_all

lemma scan_walk_eq:
  "scan_walk extension triples files = files @ matching_paths triples extension"
  by (induction triples arbitrary: files)
     (auto simp: matching_paths_def scan_filenames_eq)










section \<open>Properties of the playlist builder\<close>

lemma write_lines_appends:
  "nodes fs p = Some (File c) \<Longrightarrow>
   write_lines p files fs = fs\<lparr>nodes := (nodes fs)(p \<mapsto> File (c @ concat (map playlist_line files)))\<rparr>"
proof (induction files arbitrary: fs c)
  case Nil
  then show ?case
    by (simp add: fun_upd_idem)
next
  case (Cons f rest)
  let ?fs1 = "file_write fs p (playlist_line f)"
  have fs1: "?fs1 = fs\<lparr>nodes := (nodes fs)(p \<mapsto> File (c @ playlist_line f))\<rparr>"
    using Cons.prems by (simp add: file_write_def)
  then have "nodes ?fs1 p = Some (File (c @ playlist_line f))"
    by simp
  from Cons.IH [OF this] have "write_lines p rest ?fs1 =
      ?fs1\<lparr>nodes := (nodes ?fs1)(p \<mapsto> File ((c @ playlist_line f) @ concat (map playlist_line rest)))\<rparr>" .
  also have "\<dots> = fs\<lparr>nodes := (nodes fs)(p \<mapsto> File (c @ concat (map playlist_line (f # rest))))\<rparr>"
    unfolding fs1 by simp
  finally show ?case
    by (simp del: fun_upd_apply)
qed

lemma generate_playlist_ok:
  assumes "nodes fs p \<noteq> Some Dir"
  shows "generate_playlist fs files p =
     Inr (fs\<lparr>nodes := (nodes fs)(p \<mapsto> File (concat (map playlist_line files)))\<rparr>)"
proof -
  let ?fs1 = "fs\<lparr>nodes := (nodes fs)(p \<mapsto> File [])\<rparr>"
  have o: "open_write fs p = Inr ?fs1"
    using assms by (auto simp: open_write_def split: option.splits node.splits)
  have "nodes ?fs1 p = Some (File [])"
    by simp
  from write_lines_appends [OF this] have "write_lines p files ?fs1 =
      fs\<lparr>nodes := (nodes fs)(p \<mapsto> File (concat (map playlist_line files)))\<rparr>"
    by simp
  with o show ?thesis
    by (simp add: generate_playlist_def)
qed

lemma generate_playlist_dir:
  "nodes fs p = Some Dir \<Longrightarrow> generate_playlist fs files p = Inl (IsADirectoryError p)"
  by (simp add: generate_playlist_def open_write_def)





lemma wav_distinct:
  "wav_a \<noteq> wav_b" "wav_a \<noteq> wav_c" "wav_b \<noteq> wav_c"
  "wav_b \<noteq> wav_a" "wav_c \<noteq> wav_a" "wav_c \<noteq> wav_b"
  by (simp_all add: wav_a_def wav_b_def wav_c_def)

lemma demo_disk_matching:
  "matching_paths (walk demo_disk music_dir) ''.wav'' = [wav_c, wav_a, wav_b]"
  by (simp add: demo_disk_def matching_paths_def endswith_def path_join_def sep_def
      wav_a_def wav_b_def wav_c_def)
     (simp add: music_dir_def)


section \<open>Properties of the checksum\<close>

lemma read_loop_feeds_rest:
  assumes "streaming md5" and "0 < n"
  shows "read_loop md5 n f h = md5_update md5 h (drop (pos f) (content f))"
  using assms
proof (induction md5 n f h rule: read_loop.induct)
  case (1 md5 n f hash_md5)
  let ?rest = "drop (pos f) (content f)"
  let ?chunk = "take n ?rest"
  have rd: "read f n = (?chunk, f\<lparr>pos := pos f + length ?chunk\<rparr>)"
    by (simp add: read_def Let_def)
  show ?case
  proof (cases "?chunk = []")
    case True
    with \<open>0 < n\<close> have "?rest = []"
      by (simp add: take_eq_Nil)
    with True rd \<open>streaming md5\<close> show ?thesis
      by (simp add: streaming_def)
  next
    case False
    let ?f' = "f\<lparr>pos := pos f + length ?chunk\<rparr>"
    have "read_loop md5 n ?f' (md5_update md5 hash_md5 ?chunk) =
        md5_update md5 (md5_update md5 hash_md5 ?chunk) (drop (pos ?f') (content ?f'))"
      using "1.IH" [OF rd [symmetric] False "1.prems"] by simp
    also have "\<dots> = md5_update md5 hash_md5 (?chunk @ drop (length ?chunk) ?rest)"
      using \<open>streaming md5\<close> by (simp add: streaming_def add.commute)
    also have "?chunk @ drop (length ?chunk) ?rest = ?rest"
      by (metis append_take_drop_id length_take min.commute take_all_iff min_def
          append_Nil2 drop_all order_refl)
    finally show ?thesis
      using rd False by simp
  qed
qed

lemma hash_files_feeds_concat:
  assumes "streaming md5" and "0 < n" and "map (open_read fs) files = map Inr datas"
  shows "hash_files md5 n fs files h = Inr (md5_update md5 h (concat datas))"
  using assms(3)
proof (induction files arbitrary: h datas)
  case Nil
  with assms(1) show ?case
    by (simp add: streaming_def)
next
  case (Cons f rest)
  then obtain d ds where datas: "datas = d # ds" and d: "open_read fs f = Inr d"
    and ds: "map (open_read fs) rest = map Inr ds"
    by (cases datas) auto
  have "read_loop md5 n \<lparr>content = d, pos = 0\<rparr> h = md5_update md5 h d"
    using read_loop_feeds_rest [OF assms(1,2)] by simp
  with Cons.IH [OF ds] d datas assms(1) show ?case
    by (simp add: open_rb_def streaming_def)
qed

lemma calculate_checksum_chunked_eq:
  assumes "streaming md5" and "0 < n" and "map (open_read fs) files = map Inr datas"
  shows "calculate_checksum_chunked md5 n fs files =
     Inr (md5_hexdigest md5 (md5_update md5 (md5_new md5) (concat datas)))"
  using hash_files_feeds_concat [OF assms] by (simp add: calculate_checksum_chunked_def)

lemma demo_md5_streaming: "streaming demo_md5"
  by (simp add: streaming_def demo_md5_def)

lemma hexdigit_hex: "hexdigit n \<in> set ''0123456789abcdef''"
  unfolding hexdigit_def by (rule nth_mem) simp

lemma demo_md5_hex_output: "hex_output demo_md5"
  using hexdigit_hex by (simp add: hex_output_def is_hex_def demo_md5_def)

text \<open>
  Claim C3. For a hash object whose updates compose as \<^verbatim>\<open>hashlib\<close> documents, and files
  that can all be read, the checksum is the digest of the concatenation of the contents
  of the files in list order; every positive chunk size gives this digest; and any other
  files whose contents concatenate to the same bytes, read in chunks of any positive
  size, give the same digest.
\<close>

theorem calculate_checksum_streaming:
  assumes "streaming md5" and "map (open_read fs) files = map Inr datas"
  shows "calculate_checksum md5 fs files =
       Inr (md5_hexdigest md5 (md5_update md5 (md5_new md5) (concat datas)))
    \<and> (\<forall>n. 0 < n \<longrightarrow> calculate_checksum_chunked md5 n fs files = calculate_checksum md5 fs files)
    \<and> (\<forall>n fs' files' datas'. 0 < n \<and> map (open_read fs') files' = map Inr datas'
          \<and> concat datas' = concat datas
          \<longrightarrow> calculate_checksum_chunked md5 n fs' files' = calculate_checksum md5 fs files)"
proof -
  have c: "calculate_checksum md5 fs files =
      Inr (md5_hexdigest md5 (md5_update md5 (md5_new md5) (concat datas)))"
    unfolding calculate_checksum_def using assms
    by (intro calculate_checksum_chunked_eq) simp_all
  moreover have "calculate_checksum_chunked md5 n fs' files' =
      Inr (md5_hexdigest md5 (md5_update md5 (md5_new md5) (concat datas)))"
    if "0 < n" and "map (open_read fs') files' = map Inr datas'"
      and "concat datas' = concat datas" for n fs' files' datas'
    using calculate_checksum_chunked_eq [OF assms(1) that(1,2)] that(3) by simp
  ultimately show ?thesis
    using assms(2) by metis
qed

theorem calculate_checksum_streaming_witness:
  "streaming demo_md5
   \<and> map (open_read demo_disk) [wav_a, wav_b, wav_c] = map Inr [''RIFFa'', ''RIFFbb'', []]
   \<and> calculate_checksum demo_md5 demo_disk [wav_a, wav_b, wav_c] =
       Inr (md5_hexdigest demo_md5 (md5_update demo_md5 (md5_new demo_md5) ''RIFFaRIFFbb''))
   \<and> calculate_checksum_chunked demo_md5 1 demo_disk [wav_a, wav_b, wav_c] =
       calculate_checksum demo_md5 demo_disk [wav_a, wav_b, wav_c]
   \<and> calculate_checksum_chunked demo_md5 3
        (demo_disk\<lparr>nodes := [wav_a \<mapsto> File ''RIFFaRI'', wav_b \<mapsto> File ''FFbb'']\<rparr>) [wav_a, wav_b] =
       calculate_checksum demo_md5 demo_disk [wav_a, wav_b, wav_c]"
proof -
  have s: "streaming demo_md5"
    by (rule demo_md5_streaming)
  have r: "map (open_read demo_disk) [wav_a, wav_b, wav_c] = map Inr [''RIFFa'', ''RIFFbb'', []]"
    by (simp add: open_read_def demo_disk_def wav_distinct)
  have r': "(0::nat) < 3 \<and> map (open_read (demo_disk\<lparr>nodes := [wav_a \<mapsto> File ''RIFFaRI'',
        wav_b \<mapsto> File ''FFbb'']\<rparr>)) [wav_a, wav_b] = map Inr [''RIFFaRI'', ''FFbb'']
      \<and> concat [''RIFFaRI'', ''FFbb''] = concat [''RIFFa'', ''RIFFbb'', []]"
    by (simp add: open_read_def wav_distinct)
  let ?sum = "calculate_checksum demo_md5 demo_disk [wav_a, wav_b, wav_c]"
  note c = calculate_checksum_streaming [OF s r]
  from c have c1: "?sum =
      Inr (md5_hexdigest demo_md5 (md5_update demo_md5 (md5_new demo_md5) ''RIFFaRIFFbb''))"
    by simp
  from c have "\<forall>n. 0 < n \<longrightarrow>
      calculate_checksum_chunked demo_md5 n demo_disk [wav_a, wav_b, wav_c] = ?sum"
    by (rule conjunct1 [OF conjunct2])
  then have c2: "calculate_checksum_chunked demo_md5 1 demo_disk [wav_a, wav_b, wav_c] = ?sum"
    by simp
  from c have "\<forall>n fs' files' datas'. 0 < n \<and> map (open_read fs') files' = map Inr datas'
      \<and> concat datas' = concat [''RIFFa'', ''RIFFbb'', []]
      \<longrightarrow> calculate_checksum_chunked demo_md5 n fs' files' = ?sum"
    by (rule conjunct2 [OF conjunct2])
  with r' have c3: "calculate_checksum_chunked demo_md5 3
      (demo_disk\<lparr>nodes := [wav_a \<mapsto> File ''RIFFaRI'', wav_b \<mapsto> File ''FFbb'']\<rparr>) [wav_a, wav_b] = ?sum"
    by blast
  from s r c1 c2 c3 show ?thesis
    by blast
qed

section \<open>Properties of the checksum cache\<close>

lemma universal_newlines_id:
  "carriage_return \<notin> set s \<Longrightarrow> universal_newlines s = s"
  by (induction s rule: universal_newlines.induct) auto

lemma strip_id:
  assumes "\<forall>c \<in> set s. \<not> isspace c"
  shows "strip s = s"
proof -
  have "dropWhile isspace xs = xs" if "\<forall>c \<in> set xs. \<not> isspace c" for xs
    using that by (cases xs) simp_all
  from this [of s] this [of "rev s"] assms show ?thesis
    by (simp add: strip_def)
qed

lemma hex_char_plain:
  assumes "c \<in> set ''0123456789abcdef''"
  shows "\<not> isspace c" and "c \<noteq> carriage_return"
  using assms by (auto simp: isspace_def carriage_return_def)

lemma is_hex_read_back:
  assumes "is_hex s"
  shows "strip (universal_newlines s) = s"
proof -
  from assms have "\<forall>c \<in> set s. c \<in> set ''0123456789abcdef''"
    by (simp add: is_hex_def list_all_iff)
  then have "carriage_return \<notin> set s" and "\<forall>c \<in> set s. \<not> isspace c"
    using hex_char_plain by blast+
  then show ?thesis
    by (simp add: universal_newlines_id strip_id)
qed

lemma write_new_checksum_ok:
  assumes "nodes fs p \<noteq> Some Dir"
  shows "write_new_checksum fs checksum p = Inr (fs\<lparr>nodes := (nodes fs)(p \<mapsto> File checksum)\<rparr>)"
  using assms
  by (auto simp: write_new_checksum_def open_write_def file_write_def
      split: option.splits node.splits)

lemma write_new_checksum_dir:
  "nodes fs p = Some Dir \<Longrightarrow> write_new_checksum fs checksum p = Inl (IsADirectoryError p)"
  by (simp add: write_new_checksum_def open_write_def)

lemma read_previous_checksum_file:
  "nodes fs p = Some (File text) \<Longrightarrow>
   read_previous_checksum fs p = Inr (strip (universal_newlines text))"
  by (simp add: read_previous_checksum_def open_read_def)

lemma read_previous_checksum_missing:
  "nodes fs p = None \<Longrightarrow> read_previous_checksum fs p = Inr []"
  by (simp add: read_previous_checksum_def open_read_def)

text \<open>
  Claim C6. Writing a string of hexadecimal digits to a checksum path that is not a
  directory succeeds, and reading the path afterwards returns the same string; reading a
  checksum path that does not exist returns the empty string and no error.
\<close>

theorem checksum_roundtrip:
  "(is_hex checksum \<and> nodes fs checksum_path \<noteq> Some Dir \<longrightarrow>
      (\<exists>fs'. write_new_checksum fs checksum checksum_path = Inr fs'
         \<and> read_previous_checksum fs' checksum_path = Inr checksum))
   \<and> (nodes fs checksum_path = None \<longrightarrow> read_previous_checksum fs checksum_path = Inr [])"
proof (intro conjI impI)
  assume a: "is_hex checksum \<and> nodes fs checksum_path \<noteq> Some Dir"
  let ?fs' = "fs\<lparr>nodes := (nodes fs)(checksum_path \<mapsto> File checksum)\<rparr>"
  from a have "write_new_checksum fs checksum checksum_path = Inr ?fs'"
    by (simp add: write_new_checksum_ok)
  moreover have "read_previous_checksum ?fs' checksum_path = Inr checksum"
    using a by (simp add: read_previous_checksum_file is_hex_read_back)
  ultimately show "\<exists>fs'. write_new_checksum fs checksum checksum_path = Inr fs'
      \<and> read_previous_checksum fs' checksum_path = Inr checksum"
    by blast
next
  assume "nodes fs checksum_path = None"
  then show "read_previous_checksum fs checksum_path = Inr []"
    by (rule read_previous_checksum_missing)
qed

theorem checksum_roundtrip_witness:
  "is_hex ''d41d8cd98f00b204e9800998ecf8427e''
   \<and> nodes demo_disk checksum_file \<noteq> Some Dir
   \<and> (\<exists>fs'. write_new_checksum demo_disk ''d41d8cd98f00b204e9800998ecf8427e'' checksum_file = Inr fs'
        \<and> read_previous_checksum fs' checksum_file = Inr ''d41d8cd98f00b204e9800998ecf8427e'')
   \<and> nodes demo_disk checksum_file = None
   \<and> read_previous_checksum demo_disk checksum_file = Inr []"
proof -
  have h: "is_hex ''d41d8cd98f00b204e9800998ecf8427e''"
    by (simp add: is_hex_def)
  have n: "nodes demo_disk checksum_file = None"
    by (simp add: demo_disk_def wav_a_def wav_b_def wav_c_def checksum_file_def music_dir_def)
  from checksum_roundtrip [of "''d41d8cd98f00b204e9800998ecf8427e''" demo_disk checksum_file] h n
  show ?thesis
    by simp
qed

section \<open>Properties of the loop body\<close>

lemma world_updates:
  fixes w :: world
  shows "w\<lparr>trace := t\<rparr> = \<lparr>disk = disk w, trace = t\<rparr>"
    and "w\<lparr>disk := d\<rparr> = \<lparr>disk = d, trace = trace w\<rparr>"
  by (cases w; simp)+

lemma scratch_paths_distinct:
  "playlist_file \<noteq> checksum_file" "checksum_file \<noteq> playlist_file"
  "playlist_file \<noteq> output_file" "output_file \<noteq> playlist_file"
  "checksum_file \<noteq> output_file" "output_file \<noteq> checksum_file"
  by (simp_all add: playlist_file_def checksum_file_def output_file_def)

lemma commands_distinct:
  "mpv_cmd p \<noteq> ffmpeg_cmd q r" "ffmpeg_cmd q r \<noteq> mpv_cmd p"
  by (simp_all add: mpv_cmd_def ffmpeg_cmd_def)

lemma subprocess_run_cases:
  assumes "run cmd (disk w) = (rc, fs')"
  shows "subprocess_run run cmd w =
     (case rc of
        None \<Rightarrow> Inl (FileNotFoundError (case cmd of [] \<Rightarrow> [] | program # args \<Rightarrow> program),
                 \<lparr>disk = disk w, trace = trace w @ [Exec cmd]\<rparr>)
      | Some c \<Rightarrow>
          if c \<noteq> 0 then Inl (CalledProcessError c cmd, \<lparr>disk = fs', trace = trace w @ [Exec cmd]\<rparr>)
          else Inr \<lparr>disk = fs', trace = trace w @ [Exec cmd]\<rparr>)"
  using assms by (simp add: subprocess_run_def Let_def world_updates split: option.splits)

lemma regenerate_manifest_dir:
  assumes "nodes (disk w) playlist_file = Some Dir"
  shows "regenerate run files cur w =
     Inl (IsADirectoryError playlist_file,
          \<lparr>disk = disk w, trace = trace w @ take 2 rebuild_events\<rparr>)"
  using assms
  by (simp add: regenerate_def Let_def generate_playlist_dir enter_def print_def rebuild_events_def
      world_updates)

lemma regenerate_cases:
  assumes "nodes (disk w) playlist_file \<noteq> Some Dir"
    and "run (ffmpeg_cmd playlist_file output_file) (manifest_written files (disk w)) = (rc, fs4)"
  shows "regenerate run files cur w =
     (case rc of
        None \<Rightarrow> Inl (FileNotFoundError ''ffmpeg'',
                 \<lparr>disk = manifest_written files (disk w), trace = trace w @ rebuild_events\<rparr>)
      | Some c \<Rightarrow>
          if c \<noteq> 0
          then Inl (CalledProcessError c (ffmpeg_cmd playlist_file output_file),
                    \<lparr>disk = fs4, trace = trace w @ rebuild_events\<rparr>)
          else if nodes fs4 checksum_file = Some Dir
          then Inl (IsADirectoryError checksum_file,
                    \<lparr>disk = fs4, trace = trace w @ rebuild_events @ [Enter ''write_new_checksum'']\<rparr>)
          else Inr \<lparr>disk = fs4\<lparr>nodes := (nodes fs4)(checksum_file \<mapsto> File cur)\<rparr>,
                    trace = trace w @ rebuild_events @ [Enter ''write_new_checksum'']\<rparr>)"
proof -
  let ?cmd = "ffmpeg_cmd playlist_file output_file"
  let ?w3 = "\<lparr>disk = manifest_written files (disk w),
      trace = trace w @ [Stdout ''Changes detected or output file missing, regenerating...'',
        Enter ''generate_playlist'', Enter ''concatenate_files'',
        Stdout (''Running command: '' @ str_join '' '' ?cmd)]\<rparr>"
  have run: "run ?cmd (disk ?w3) = (rc, fs4)"
    using assms(2) by simp
  have conc: "concatenate_files run playlist_file output_file
      (enter ''concatenate_files'' ((enter ''generate_playlist''
        (print ''Changes detected or output file missing, regenerating...'' w))
          \<lparr>disk := manifest_written files (disk w)\<rparr>)) = subprocess_run run ?cmd ?w3"
    by (simp add: concatenate_files_def Let_def enter_def print_def world_updates)
  have gen: "generate_playlist (disk w) files playlist_file = Inr (manifest_written files (disk w))"
    using assms(1) by (simp add: generate_playlist_ok manifest_written_def)
  have head: "(case ?cmd of [] \<Rightarrow> [] | program # args \<Rightarrow> program) = ''ffmpeg''"
    by (simp add: ffmpeg_cmd_def)
  note sr = subprocess_run_cases [of run ?cmd ?w3 rc fs4, OF run]
  show ?thesis
  proof (cases rc)
    case None
    with sr gen conc head show ?thesis
      by (simp add: regenerate_def Let_def enter_def print_def rebuild_events_def world_updates)
  next
    case (Some c)
    show ?thesis
    proof (cases "c = 0")
      case False
      with Some sr gen conc show ?thesis
        by (simp add: regenerate_def Let_def enter_def print_def rebuild_events_def world_updates)
    next
      case True
      show ?thesis
      proof (cases "nodes fs4 checksum_file = Some Dir")
        case dir: True
        with True Some sr gen conc show ?thesis
          by (simp add: regenerate_def Let_def enter_def print_def rebuild_events_def
              write_new_checksum_dir world_updates)
      next
        case nodir: False
        with True Some sr gen conc show ?thesis
          by (simp add: regenerate_def Let_def enter_def print_def rebuild_events_def
              write_new_checksum_ok world_updates)
      qed
    qed
  qed
qed

lemma check_and_rebuild_cases:
  assumes "calculate_checksum md5 (disk w) files = Inr cur"
    and "read_previous_checksum (disk w) checksum_file = Inr prev"
  shows "check_and_rebuild md5 run files w =
     (if rebuild_needed cur prev (disk w)
      then regenerate run files cur
             \<lparr>disk = disk w, trace = trace w @ [Enter ''calculate_checksum'', Enter ''read_previous_checksum'']\<rparr>
      else Inr \<lparr>disk = disk w, trace = trace w @ [Enter ''calculate_checksum'',
             Enter ''read_previous_checksum'',
             Stdout ''No changes detected. Using existing combined audio file.'']\<rparr>)"
  using assms
  by (simp add: check_and_rebuild_def Let_def enter_def print_def rebuild_needed_def world_updates)

lemma iteration_no_files:
  assumes "get_files_sorted_by_mtime (disk w) music_dir ''.wav'' = Inr []"
  shows "iteration md5 run w = Inr \<lparr>disk = disk w, trace = trace w @
     [Enter ''get_files_sorted_by_mtime'', Stdout ''No .wav files found in the directory.'']\<rparr>"
  using assms by (simp add: iteration_def Let_def enter_def print_def world_updates)

lemma iteration_files:
  assumes "get_files_sorted_by_mtime (disk w) music_dir ''.wav'' = Inr files" and "files \<noteq> []"
  shows "iteration md5 run w =
     (case check_and_rebuild md5 run files
             \<lparr>disk = disk w, trace = trace w @ [Enter ''get_files_sorted_by_mtime'']\<rparr> of
        Inl ew \<Rightarrow> Inl ew
      | Inr w2 \<Rightarrow> subprocess_run run (mpv_cmd output_file)
          \<lparr>disk = disk w2, trace = trace w2 @ [Stdout ''Playing combined playlist...'',
             Enter ''play_audio'']\<rparr>)"
  using assms
  by (simp add: iteration_def Let_def enter_def print_def play_audio_def world_updates
      split: sum.splits)

lemma regenerate_unfold:
  assumes "nodes (disk w) playlist_file \<noteq> Some Dir"
  shows "regenerate run files cur w =
     (case run (ffmpeg_cmd playlist_file output_file) (manifest_written files (disk w)) of
        (None, fs4) \<Rightarrow> Inl (FileNotFoundError ''ffmpeg'',
                 \<lparr>disk = manifest_written files (disk w), trace = trace w @ rebuild_events\<rparr>)
      | (Some c, fs4) \<Rightarrow>
          if c \<noteq> 0
          then Inl (CalledProcessError c (ffmpeg_cmd playlist_file output_file),
                    \<lparr>disk = fs4, trace = trace w @ rebuild_events\<rparr>)
          else if nodes fs4 checksum_file = Some Dir
          then Inl (IsADirectoryError checksum_file,
                    \<lparr>disk = fs4, trace = trace w @ rebuild_events @ [Enter ''write_new_checksum'']\<rparr>)
          else Inr \<lparr>disk = fs4\<lparr>nodes := (nodes fs4)(checksum_file \<mapsto> File cur)\<rparr>,
                    trace = trace w @ rebuild_events @ [Enter ''write_new_checksum'']\<rparr>)"
proof (cases "run (ffmpeg_cmd playlist_file output_file) (manifest_written files (disk w))")
  case (Pair rc fs4)
  from regenerate_cases [of w run files rc fs4 cur] assms Pair show ?thesis
    by (simp split: option.splits)
qed

lemma silent_scan:
  "get_files_sorted_by_mtime (disk silent_world) music_dir ''.wav'' = Inr []"
  by (simp add: silent_world_def get_files_sorted_by_mtime_def sorted_by_mtime_def)

lemma rebuild_events_members:
  "Enter ''generate_playlist'' \<in> set rebuild_events"
  "Enter ''concatenate_files'' \<in> set rebuild_events"
  "Exec (ffmpeg_cmd playlist_file output_file) \<in> set rebuild_events"
  "Enter ''write_new_checksum'' \<notin> set rebuild_events"
  "Enter ''play_audio'' \<notin> set rebuild_events"
  "Exec (mpv_cmd output_file) \<notin> set rebuild_events"
  "Enter ''generate_playlist'' \<in> set (take 2 rebuild_events)"
  "Exec (ffmpeg_cmd playlist_file output_file) \<notin> set (take 2 rebuild_events)"
  "Enter ''write_new_checksum'' \<notin> set (take 2 rebuild_events)"
  by (simp_all add: rebuild_events_def commands_distinct)

text \<open>
  Claim C8. When the scan returns the empty list, the iteration ends normally; all it
  does is to enter the scanner and to print the message that no files were found: it
  does not enter the playlist builder, the checksum computation or the concatenation,
  starts no subprocess, and leaves the file system as it is.
\<close>

theorem iteration_without_files:
  assumes "get_files_sorted_by_mtime (disk w) music_dir ''.wav'' = Inr []"
  shows "iteration md5 run w = Inr \<lparr>disk = disk w, trace = trace w @
       [Enter ''get_files_sorted_by_mtime'', Stdout ''No .wav files found in the directory.'']\<rparr>
    \<and> Stdout ''No .wav files found in the directory.'' \<in> set (new_events w (iteration md5 run w))
    \<and> Enter ''generate_playlist'' \<notin> set (new_events w (iteration md5 run w))
    \<and> Enter ''calculate_checksum'' \<notin> set (new_events w (iteration md5 run w))
    \<and> Enter ''concatenate_files'' \<notin> set (new_events w (iteration md5 run w))
    \<and> (\<forall>cmd. Exec cmd \<notin> set (new_events w (iteration md5 run w)))"
  by (simp add: iteration_no_files [OF assms] new_events_def final_world_def)

theorem iteration_without_files_witness:
  "get_files_sorted_by_mtime (disk silent_world) music_dir ''.wav'' = Inr []
   \<and> iteration demo_md5 (demo_run 0 0) silent_world = Inr \<lparr>disk = disk silent_world, trace =
       [Enter ''get_files_sorted_by_mtime'', Stdout ''No .wav files found in the directory.'']\<rparr>
   \<and> Enter ''generate_playlist'' \<notin> set (new_events silent_world (iteration demo_md5 (demo_run 0 0) silent_world))
   \<and> Enter ''calculate_checksum'' \<notin> set (new_events silent_world (iteration demo_md5 (demo_run 0 0) silent_world))
   \<and> Enter ''concatenate_files'' \<notin> set (new_events silent_world (iteration demo_md5 (demo_run 0 0) silent_world))"
proof -
  have t: "trace silent_world = []"
    by (simp add: silent_world_def)
  note r = iteration_without_files [OF silent_scan, of demo_md5 "demo_run 0 0", unfolded t append_Nil]
  from r silent_scan show ?thesis
    by blast
qed

text \<open>
  Claim C9, as the specification states it, fails: in an iteration whose scan finds no
  file, the script prints the message and does not reach the playback, which is inside
  the branch for a non-empty scan (lines 57 to 70).
\<close>

theorem no_files_playback_counterexample:
  "get_files_sorted_by_mtime (disk silent_world) music_dir ''.wav'' = Inr []
   \<and> Stdout ''No .wav files found in the directory.''
        \<in> set (new_events silent_world (iteration demo_md5 (demo_run 0 0) silent_world))
   \<and> Enter ''play_audio'' \<notin> set (new_events silent_world (iteration demo_md5 (demo_run 0 0) silent_world))
   \<and> Exec (mpv_cmd output_file)
        \<notin> set (new_events silent_world (iteration demo_md5 (demo_run 0 0) silent_world))"
  by (simp add: silent_scan iteration_no_files new_events_def final_world_def)

text \<open>
  Claim C9, amended. When the scan finds no file, the iteration prints the message and
  ends without playback: it does not enter \<^verbatim>\<open>play_audio\<close> and does not start the
  player, and the loop goes on with the next scan, in the same file system.
\<close>

theorem no_files_no_playback:
  assumes "get_files_sorted_by_mtime (disk w) music_dir ''.wav'' = Inr []"
  shows "Stdout ''No .wav files found in the directory.'' \<in> set (new_events w (iteration md5 run w))
    \<and> Enter ''play_audio'' \<notin> set (new_events w (iteration md5 run w))
    \<and> Exec (mpv_cmd output_file) \<notin> set (new_events w (iteration md5 run w))
    \<and> (\<exists>w'. iteration md5 run w = Inr w' \<and> disk w' = disk w
          \<and> main_loop md5 run w = main_loop md5 run w')"
proof -
  let ?w' = "\<lparr>disk = disk w, trace = trace w @
      [Enter ''get_files_sorted_by_mtime'', Stdout ''No .wav files found in the directory.'']\<rparr>"
  have it: "iteration md5 run w = Inr ?w'"
    using assms by (rule iteration_no_files)
  then have "main_loop md5 run w = main_loop md5 run ?w'"
    by (subst main_loop.simps) simp
  with it show ?thesis
    by (simp add: new_events_def final_world_def)
qed

theorem no_files_no_playback_witness:
  "get_files_sorted_by_mtime (disk silent_world) music_dir ''.wav'' = Inr []
   \<and> Enter ''play_audio'' \<notin> set (new_events silent_world (iteration demo_md5 (demo_run 0 0) silent_world))
   \<and> Exec (mpv_cmd output_file)
        \<notin> set (new_events silent_world (iteration demo_md5 (demo_run 0 0) silent_world))
   \<and> (\<exists>w'. iteration demo_md5 (demo_run 0 0) silent_world = Inr w' \<and> disk w' = disk silent_world
         \<and> main_loop demo_md5 (demo_run 0 0) silent_world = main_loop demo_md5 (demo_run 0 0) w')"
  using no_files_no_playback [OF silent_scan, of demo_md5 "demo_run 0 0"] silent_scan
  by blast

lemma subprocess_run_trace:
  "trace (final_world (subprocess_run run cmd w)) = trace w @ [Exec cmd]"
  by (simp add: subprocess_run_def final_world_def Let_def split: prod.splits option.splits)

lemma iteration_unfold:
  assumes "get_files_sorted_by_mtime (disk w) music_dir ''.wav'' = Inr files" and "files \<noteq> []"
    and "calculate_checksum md5 (disk w) files = Inr cur"
    and "read_previous_checksum (disk w) checksum_file = Inr prev"
  shows "iteration md5 run w =
     (if \<not> rebuild_needed cur prev (disk w)
      then subprocess_run run (mpv_cmd output_file)
             \<lparr>disk = disk w, trace = trace w @ check_events
                @ [Stdout ''No changes detected. Using existing combined audio file.''] @ play_events\<rparr>
      else if nodes (disk w) playlist_file = Some Dir
      then Inl (IsADirectoryError playlist_file,
                \<lparr>disk = disk w, trace = trace w @ check_events @ take 2 rebuild_events\<rparr>)
      else (case run (ffmpeg_cmd playlist_file output_file) (manifest_written files (disk w)) of
              (None, fs4) \<Rightarrow>
                Inl (FileNotFoundError ''ffmpeg'',
                     \<lparr>disk = manifest_written files (disk w),
                        trace = trace w @ check_events @ rebuild_events\<rparr>)
            | (Some c, fs4) \<Rightarrow>
                if c \<noteq> 0
                then Inl (CalledProcessError c (ffmpeg_cmd playlist_file output_file),
                          \<lparr>disk = fs4, trace = trace w @ check_events @ rebuild_events\<rparr>)
                else if nodes fs4 checksum_file = Some Dir
                then Inl (IsADirectoryError checksum_file,
                          \<lparr>disk = fs4, trace = trace w @ check_events @ rebuild_events
                             @ [Enter ''write_new_checksum'']\<rparr>)
                else subprocess_run run (mpv_cmd output_file)
                       \<lparr>disk = fs4\<lparr>nodes := (nodes fs4)(checksum_file \<mapsto> File cur)\<rparr>,
                          trace = trace w @ check_events @ rebuild_events
                             @ [Enter ''write_new_checksum''] @ play_events\<rparr>))"
proof -
  let ?w1 = "\<lparr>disk = disk w, trace = trace w @ [Enter ''get_files_sorted_by_mtime'']\<rparr>"
  let ?w2 = "\<lparr>disk = disk w, trace = trace w @ check_events\<rparr>"
  note it = iteration_files [OF assms(1,2), of md5 run]
  have cr: "check_and_rebuild md5 run files ?w1 =
      (if rebuild_needed cur prev (disk w) then regenerate run files cur ?w2
       else Inr \<lparr>disk = disk w, trace = trace w @ check_events
          @ [Stdout ''No changes detected. Using existing combined audio file.'']\<rparr>)"
    using check_and_rebuild_cases [of md5 ?w1 files cur prev run] assms(3,4)
    by (simp add: check_events_def)
  show ?thesis
  proof (cases "rebuild_needed cur prev (disk w)")
    case False
    with it cr show ?thesis
      by (simp add: play_events_def)
  next
    case needed: True
    show ?thesis
    proof (cases "nodes (disk w) playlist_file = Some Dir")
      case True
      with regenerate_manifest_dir [of ?w2 run files cur] it cr needed show ?thesis
        by simp
    next
      case False
      with regenerate_unfold [of ?w2 run files cur] it cr needed show ?thesis
        by (simp add: play_events_def split: prod.splits option.splits)
    qed
  qed
qed

lemma iteration_events:
  assumes "get_files_sorted_by_mtime (disk w) music_dir ''.wav'' = Inr files" and "files \<noteq> []"
    and "calculate_checksum md5 (disk w) files = Inr cur"
    and "read_previous_checksum (disk w) checksum_file = Inr prev"
  shows "new_events w (iteration md5 run w) = check_events @
     (if \<not> rebuild_needed cur prev (disk w)
      then [Stdout ''No changes detected. Using existing combined audio file.''] @ play_events
             @ [Exec (mpv_cmd output_file)]
      else if nodes (disk w) playlist_file = Some Dir then take 2 rebuild_events
      else (case run (ffmpeg_cmd playlist_file output_file) (manifest_written files (disk w)) of
              (None, fs4) \<Rightarrow> rebuild_events
            | (Some c, fs4) \<Rightarrow>
                if c \<noteq> 0 then rebuild_events
                else if nodes fs4 checksum_file = Some Dir
                then rebuild_events @ [Enter ''write_new_checksum'']
                else rebuild_events @ [Enter ''write_new_checksum''] @ play_events
                       @ [Exec (mpv_cmd output_file)]))"
  unfolding iteration_unfold [OF assms] new_events_def
  by (simp add: subprocess_run_trace split: prod.splits option.splits)
     (simp add: final_world_def)

lemma fixed_events_members:
  "Enter ''generate_playlist'' \<notin> set check_events"
  "Enter ''concatenate_files'' \<notin> set check_events"
  "Enter ''write_new_checksum'' \<notin> set check_events"
  "Enter ''play_audio'' \<notin> set check_events"
  "Exec cmd \<notin> set check_events"
  "Enter ''generate_playlist'' \<notin> set play_events"
  "Enter ''concatenate_files'' \<notin> set play_events"
  "Enter ''write_new_checksum'' \<notin> set play_events"
  "Exec cmd \<notin> set play_events"
  by (simp_all add: check_events_def play_events_def)


lemma wav_not_scratch:
  "wav_a \<noteq> checksum_file" "wav_b \<noteq> checksum_file" "wav_c \<noteq> checksum_file"
  "wav_a \<noteq> output_file" "wav_b \<noteq> output_file" "wav_c \<noteq> output_file"
  "wav_a \<noteq> playlist_file" "wav_b \<noteq> playlist_file" "wav_c \<noteq> playlist_file"
  "checksum_file \<noteq> wav_a" "checksum_file \<noteq> wav_b" "checksum_file \<noteq> wav_c"
  "output_file \<noteq> wav_a" "output_file \<noteq> wav_b" "output_file \<noteq> wav_c"
  "playlist_file \<noteq> wav_a" "playlist_file \<noteq> wav_b" "playlist_file \<noteq> wav_c"
  by (simp_all add: wav_a_def wav_b_def wav_c_def music_dir_def checksum_file_def
      output_file_def playlist_file_def)

lemma demo_scan:
  assumes "walk fs = walk demo_disk" and "getmtime fs = getmtime demo_disk"
  shows "get_files_sorted_by_mtime fs music_dir ''.wav'' = Inr [wav_a, wav_b, wav_c]"
proof -
  have "getmtime demo_disk wav_a = Some 1" "getmtime demo_disk wav_b = Some 2"
    "getmtime demo_disk wav_c = Some 3"
    by (simp_all add: demo_disk_def wav_distinct)
  then show ?thesis
    using assms
    by (simp add: get_files_sorted_by_mtime_def scan_walk_eq demo_disk_matching
        sorted_by_mtime_def)
qed

lemma demo_sum:
  assumes "nodes fs wav_a = Some (File ''RIFFa'')" and "nodes fs wav_b = Some (File ''RIFFbb'')"
    and "nodes fs wav_c = Some (File [])"
  shows "calculate_checksum demo_md5 fs [wav_a, wav_b, wav_c] = Inr demo_digest"
proof -
  have "map (open_read fs) [wav_a, wav_b, wav_c] = map Inr [''RIFFa'', ''RIFFbb'', []]"
    using assms by (simp add: open_read_def)
  from calculate_checksum_chunked_eq [OF demo_md5_streaming _ this, of 4096]
  show ?thesis
    by (simp add: calculate_checksum_def demo_digest_def)
qed


lemma demo_digest_length: "length demo_digest = 2"
  by (simp add: demo_digest_def demo_md5_def)

lemma demo_disk_nodes:
  "nodes demo_disk wav_a = Some (File ''RIFFa'')" "nodes demo_disk wav_b = Some (File ''RIFFbb'')"
  "nodes demo_disk wav_c = Some (File [])"
  "nodes demo_disk checksum_file = None" "nodes demo_disk output_file = None"
  "nodes demo_disk playlist_file = None"
  by (simp_all add: demo_disk_def wav_distinct wav_not_scratch)


lemma check_and_rebuild_unfold:
  assumes "calculate_checksum md5 (disk w) files = Inr cur"
    and "read_previous_checksum (disk w) checksum_file = Inr prev"
    and "run (ffmpeg_cmd playlist_file output_file) (manifest_written files (disk w)) = (rc, fs4)"
  shows "check_and_rebuild md5 run files w =
     (if \<not> rebuild_needed cur prev (disk w)
      then Inr \<lparr>disk = disk w, trace = trace w @ [Enter ''calculate_checksum'',
             Enter ''read_previous_checksum'',
             Stdout ''No changes detected. Using existing combined audio file.'']\<rparr>
      else if nodes (disk w) playlist_file = Some Dir
      then Inl (IsADirectoryError playlist_file,
                \<lparr>disk = disk w, trace = trace w @ [Enter ''calculate_checksum'',
                   Enter ''read_previous_checksum''] @ take 2 rebuild_events\<rparr>)
      else (case rc of
              None \<Rightarrow>
                Inl (FileNotFoundError ''ffmpeg'',
                     \<lparr>disk = manifest_written files (disk w),
                        trace = trace w @ [Enter ''calculate_checksum'',
                          Enter ''read_previous_checksum''] @ rebuild_events\<rparr>)
            | Some c \<Rightarrow>
                if c \<noteq> 0
                then Inl (CalledProcessError c (ffmpeg_cmd playlist_file output_file),
                          \<lparr>disk = fs4, trace = trace w @ [Enter ''calculate_checksum'',
                             Enter ''read_previous_checksum''] @ rebuild_events\<rparr>)
                else if nodes fs4 checksum_file = Some Dir
                then Inl (IsADirectoryError checksum_file,
                          \<lparr>disk = fs4, trace = trace w @ [Enter ''calculate_checksum'',
                             Enter ''read_previous_checksum''] @ rebuild_events
                             @ [Enter ''write_new_checksum'']\<rparr>)
                else Inr \<lparr>disk = fs4\<lparr>nodes := (nodes fs4)(checksum_file \<mapsto> File cur)\<rparr>,
                          trace = trace w @ [Enter ''calculate_checksum'',
                             Enter ''read_previous_checksum''] @ rebuild_events
                             @ [Enter ''write_new_checksum'']\<rparr>))"
proof -
  let ?w2 = "\<lparr>disk = disk w, trace = trace w @ [Enter ''calculate_checksum'',
      Enter ''read_previous_checksum'']\<rparr>"
  note cr = check_and_rebuild_cases [OF assms(1,2), of run]
  show ?thesis
  proof (cases "rebuild_needed cur prev (disk w)")
    case False
    with cr show ?thesis
      by simp
  next
    case needed: True
    show ?thesis
    proof (cases "nodes (disk w) playlist_file = Some Dir")
      case True
      with regenerate_manifest_dir [of ?w2 run files cur] cr needed show ?thesis
        by simp
    next
      case False
      with regenerate_cases [of ?w2 run files rc fs4 cur] assms(3) cr needed show ?thesis
        by (simp split: option.splits)
    qed
  qed
qed

text \<open>
  Claim C5. Let the checksum be computed and the persisted checksum be read, let the
  manifest path and the checksum path not be directories, and let the transcoder leave
  the checksum file as it is. When the rebuild is triggered and the transcoder exits with
  status zero, the block of lines 58 to 67 ends normally, has entered the checksum writer,
  and the checksum file then holds the checksum just computed. When the rebuild is
  triggered and the transcoder exits with another status or cannot be started, the block
  raises the error, the checksum writer is not entered and the checksum file is what it
  was. When no rebuild is triggered the checksum writer is not entered either, and the
  file system is unchanged.
\<close>

theorem checksum_written_after_concatenation:
  assumes "calculate_checksum md5 (disk w) files = Inr current_checksum"
    and "read_previous_checksum (disk w) checksum_file = Inr previous_checksum"
    and "nodes (disk w) playlist_file \<noteq> Some Dir"
    and "nodes (disk w) checksum_file \<noteq> Some Dir"
    and "run (ffmpeg_cmd playlist_file output_file) (manifest_written files (disk w)) = (rc, fs4)"
    and "nodes fs4 checksum_file = nodes (disk w) checksum_file"
  shows "(rebuild_needed current_checksum previous_checksum (disk w) \<and> rc = Some 0 \<longrightarrow>
        (\<exists>w'. check_and_rebuild md5 run files w = Inr w'
           \<and> nodes (disk w') checksum_file = Some (File current_checksum)
           \<and> Enter ''write_new_checksum'' \<in> set (new_events w (check_and_rebuild md5 run files w))))
    \<and> (rebuild_needed current_checksum previous_checksum (disk w) \<and> rc \<noteq> Some 0 \<longrightarrow>
        (\<exists>w'. check_and_rebuild md5 run files w =
              Inl (case rc of None \<Rightarrow> FileNotFoundError ''ffmpeg''
                   | Some c \<Rightarrow> CalledProcessError c (ffmpeg_cmd playlist_file output_file), w')
           \<and> nodes (disk w') checksum_file = nodes (disk w) checksum_file
           \<and> Enter ''write_new_checksum'' \<notin> set (new_events w (check_and_rebuild md5 run files w))))
    \<and> (\<not> rebuild_needed current_checksum previous_checksum (disk w) \<longrightarrow>
        (\<exists>w'. check_and_rebuild md5 run files w = Inr w' \<and> disk w' = disk w
           \<and> Enter ''write_new_checksum'' \<notin> set (new_events w (check_and_rebuild md5 run files w))))"
proof -
  note u = check_and_rebuild_unfold [of md5 w files current_checksum previous_checksum run rc fs4,
      OF assms(1,2,5)]
  have nodir: "nodes fs4 checksum_file \<noteq> Some Dir"
    using assms(4,6) by simp
  have man: "nodes (manifest_written files (disk w)) checksum_file = nodes (disk w) checksum_file"
    by (simp add: manifest_written_def scratch_paths_distinct)
  show ?thesis
  proof (intro conjI impI)
    assume "rebuild_needed current_checksum previous_checksum (disk w) \<and> rc = Some 0"
    with u assms(3) nodir show "\<exists>w'. check_and_rebuild md5 run files w = Inr w'
        \<and> nodes (disk w') checksum_file = Some (File current_checksum)
        \<and> Enter ''write_new_checksum'' \<in> set (new_events w (check_and_rebuild md5 run files w))"
      by (simp add: new_events_def final_world_def)
  next
    assume a: "rebuild_needed current_checksum previous_checksum (disk w) \<and> rc \<noteq> Some 0"
    show "\<exists>w'. check_and_rebuild md5 run files w =
          Inl (case rc of None \<Rightarrow> FileNotFoundError ''ffmpeg''
               | Some c \<Rightarrow> CalledProcessError c (ffmpeg_cmd playlist_file output_file), w')
        \<and> nodes (disk w') checksum_file = nodes (disk w) checksum_file
        \<and> Enter ''write_new_checksum'' \<notin> set (new_events w (check_and_rebuild md5 run files w))"
    proof (cases rc)
      case None
      with u a assms(3) man show ?thesis
        by (simp add: new_events_def final_world_def rebuild_events_members)
    next
      case (Some c)
      with u a assms(3,6) show ?thesis
        by (simp add: new_events_def final_world_def rebuild_events_members)
    qed
  next
    assume "\<not> rebuild_needed current_checksum previous_checksum (disk w)"
    with u show "\<exists>w'. check_and_rebuild md5 run files w = Inr w' \<and> disk w' = disk w
        \<and> Enter ''write_new_checksum'' \<notin> set (new_events w (check_and_rebuild md5 run files w))"
      by (simp add: new_events_def final_world_def)
  qed
qed

lemma stale_disk_facts:
  "calculate_checksum demo_md5 stale_disk [wav_a, wav_b, wav_c] = Inr demo_digest"
  "read_previous_checksum stale_disk checksum_file = Inr ''abc''"
  "nodes stale_disk playlist_file \<noteq> Some Dir"
  "nodes stale_disk checksum_file = Some (File ''abc'')"
  "rebuild_needed demo_digest ''abc'' stale_disk"
  "get_files_sorted_by_mtime stale_disk music_dir ''.wav'' = Inr [wav_a, wav_b, wav_c]"
proof -
  show "calculate_checksum demo_md5 stale_disk [wav_a, wav_b, wav_c] = Inr demo_digest"
    by (simp add: demo_sum stale_disk_def demo_disk_nodes wav_not_scratch)
  have node: "nodes stale_disk checksum_file = Some (File ''abc'')"
    by (simp add: stale_disk_def scratch_paths_distinct)
  have "is_hex ''abc''"
    by (simp add: is_hex_def)
  then have "strip (universal_newlines ''abc'') = ''abc''"
    by (rule is_hex_read_back)
  with read_previous_checksum_file [OF node]
  show "read_previous_checksum stale_disk checksum_file = Inr ''abc''"
    by (simp only:)
  show "nodes stale_disk playlist_file \<noteq> Some Dir"
    by (simp add: stale_disk_def demo_disk_nodes scratch_paths_distinct)
  show "nodes stale_disk checksum_file = Some (File ''abc'')"
    by (simp add: stale_disk_def scratch_paths_distinct)
  have "length demo_digest \<noteq> length ''abc''"
    by (simp add: demo_digest_length)
  then have "demo_digest \<noteq> ''abc''"
    by fastforce
  then show "rebuild_needed demo_digest ''abc'' stale_disk"
    by (simp add: rebuild_needed_def)
  show "get_files_sorted_by_mtime stale_disk music_dir ''.wav'' = Inr [wav_a, wav_b, wav_c]"
    by (simp add: demo_scan stale_disk_def)
qed

lemma demo_run_ffmpeg:
  "demo_run 0 m (ffmpeg_cmd playlist_file output_file) fs =
     (Some 0, fs\<lparr>nodes := (nodes fs)(output_file \<mapsto> File ''RIFFaRIFFbb'')\<rparr>)"
  "s \<noteq> 0 \<Longrightarrow> demo_run s m (ffmpeg_cmd playlist_file output_file) fs = (Some s, fs)"
  "demo_run s m (mpv_cmd output_file) fs = (Some m, fs)"
  by (simp_all add: demo_run_def commands_distinct)

theorem checksum_written_after_concatenation_witness:
  "calculate_checksum demo_md5 stale_disk [wav_a, wav_b, wav_c] = Inr demo_digest
   \<and> read_previous_checksum stale_disk checksum_file = Inr ''abc''
   \<and> rebuild_needed demo_digest ''abc'' stale_disk
   \<and> (\<exists>w'. check_and_rebuild demo_md5 (demo_run 0 0) [wav_a, wav_b, wav_c]
              \<lparr>disk = stale_disk, trace = []\<rparr> = Inr w'
         \<and> nodes (disk w') checksum_file = Some (File demo_digest))
   \<and> (\<exists>w'. check_and_rebuild demo_md5 (demo_run 1 0) [wav_a, wav_b, wav_c]
              \<lparr>disk = stale_disk, trace = []\<rparr>
            = Inl (CalledProcessError 1 (ffmpeg_cmd playlist_file output_file), w')
         \<and> nodes (disk w') checksum_file = Some (File ''abc''))"
proof -
  let ?w = "\<lparr>disk = stale_disk, trace = []\<rparr>"
  let ?files = "[wav_a, wav_b, wav_c]"
  let ?fs3 = "manifest_written ?files (disk ?w)"
  let ?fs4 = "?fs3\<lparr>nodes := (nodes ?fs3)(output_file \<mapsto> File ''RIFFaRIFFbb'')\<rparr>"
  have cur: "calculate_checksum demo_md5 (disk ?w) ?files = Inr demo_digest"
    and prev: "read_previous_checksum (disk ?w) checksum_file = Inr ''abc''"
    and man: "nodes (disk ?w) playlist_file \<noteq> Some Dir"
    and sumfile: "nodes (disk ?w) checksum_file \<noteq> Some Dir"
    and needed: "rebuild_needed demo_digest ''abc'' (disk ?w)"
    by (simp_all add: stale_disk_facts)
  have run0: "demo_run 0 0 (ffmpeg_cmd playlist_file output_file) ?fs3 = (Some 0, ?fs4)"
    by (rule demo_run_ffmpeg)
  have keeps0: "nodes ?fs4 checksum_file = nodes (disk ?w) checksum_file"
    by (simp add: manifest_written_def scratch_paths_distinct)
  have run1: "demo_run 1 0 (ffmpeg_cmd playlist_file output_file) ?fs3 = (Some 1, ?fs3)"
    by (simp add: demo_run_ffmpeg)
  have keeps1: "nodes ?fs3 checksum_file = nodes (disk ?w) checksum_file"
    by (simp add: manifest_written_def scratch_paths_distinct)
  from checksum_written_after_concatenation [of demo_md5 ?w ?files demo_digest "''abc''"
      "demo_run 0 0" "Some 0" ?fs4, OF cur prev man sumfile run0 keeps0] needed
  have ok: "\<exists>w'. check_and_rebuild demo_md5 (demo_run 0 0) ?files ?w = Inr w'
      \<and> nodes (disk w') checksum_file = Some (File demo_digest)"
    by blast
  from checksum_written_after_concatenation [of demo_md5 ?w ?files demo_digest "''abc''"
      "demo_run 1 0" "Some 1" ?fs3, OF cur prev man sumfile run1 keeps1] needed
  have "\<exists>w'. check_and_rebuild demo_md5 (demo_run 1 0) ?files ?w
        = Inl (CalledProcessError 1 (ffmpeg_cmd playlist_file output_file), w')
      \<and> nodes (disk w') checksum_file = nodes (disk ?w) checksum_file"
    by auto
  then have failed: "\<exists>w'. check_and_rebuild demo_md5 (demo_run 1 0) ?files ?w
        = Inl (CalledProcessError 1 (ffmpeg_cmd playlist_file output_file), w')
      \<and> nodes (disk w') checksum_file = Some (File ''abc'')"
    by (simp add: stale_disk_facts)
  from ok failed show ?thesis
    by (simp add: stale_disk_facts)
qed

text \<open>
  Claim C10. In an iteration that reaches the comparison of the checksums: when the
  rebuild is triggered, the manifest is written and the transcoder exits with a status
  other than zero, the iteration raises \<^verbatim>\<open>CalledProcessError\<close> right after the
  transcoder, and the loop ends with this error; when the block before the playback ends
  normally and the player exits with a status other than zero, the iteration raises
  \<^verbatim>\<open>CalledProcessError\<close> right after the player, and the loop ends with this error.
  In both cases the loop has a result, so that it neither retries nor goes on to a next
  iteration.
\<close>

theorem subprocess_failure_ends_loop:
  assumes "get_files_sorted_by_mtime (disk w) music_dir ''.wav'' = Inr files" and "files \<noteq> []"
    and "calculate_checksum md5 (disk w) files = Inr current_checksum"
    and "read_previous_checksum (disk w) checksum_file = Inr previous_checksum"
  shows "(\<forall>c fs4. rebuild_needed current_checksum previous_checksum (disk w)
          \<and> nodes (disk w) playlist_file \<noteq> Some Dir
          \<and> run (ffmpeg_cmd playlist_file output_file) (manifest_written files (disk w)) = (Some c, fs4)
          \<and> c \<noteq> 0
          \<longrightarrow> iteration md5 run w =
                Inl (CalledProcessError c (ffmpeg_cmd playlist_file output_file),
                     \<lparr>disk = fs4, trace = trace w @ check_events @ rebuild_events\<rparr>)
            \<and> main_loop md5 run w =
                Some (CalledProcessError c (ffmpeg_cmd playlist_file output_file),
                      \<lparr>disk = fs4, trace = trace w @ check_events @ rebuild_events\<rparr>)
            \<and> last rebuild_events = Exec (ffmpeg_cmd playlist_file output_file))
    \<and> (\<forall>w2 c fs5. check_and_rebuild md5 run files
              \<lparr>disk = disk w, trace = trace w @ [Enter ''get_files_sorted_by_mtime'']\<rparr> = Inr w2
          \<and> run (mpv_cmd output_file) (disk w2) = (Some c, fs5)
          \<and> c \<noteq> 0
          \<longrightarrow> iteration md5 run w =
                Inl (CalledProcessError c (mpv_cmd output_file),
                     \<lparr>disk = fs5, trace = trace w2 @ play_events @ [Exec (mpv_cmd output_file)]\<rparr>)
            \<and> main_loop md5 run w =
                Some (CalledProcessError c (mpv_cmd output_file),
                      \<lparr>disk = fs5, trace = trace w2 @ play_events @ [Exec (mpv_cmd output_file)]\<rparr>))"
proof (intro conjI allI impI)
  fix c fs4
  assume a: "rebuild_needed current_checksum previous_checksum (disk w)
      \<and> nodes (disk w) playlist_file \<noteq> Some Dir
      \<and> run (ffmpeg_cmd playlist_file output_file) (manifest_written files (disk w)) = (Some c, fs4)
      \<and> c \<noteq> 0"
  with iteration_unfold [OF assms, of run]
  show it: "iteration md5 run w =
      Inl (CalledProcessError c (ffmpeg_cmd playlist_file output_file),
           \<lparr>disk = fs4, trace = trace w @ check_events @ rebuild_events\<rparr>)"
    by simp
  then show "main_loop md5 run w =
      Some (CalledProcessError c (ffmpeg_cmd playlist_file output_file),
            \<lparr>disk = fs4, trace = trace w @ check_events @ rebuild_events\<rparr>)"
    by (subst main_loop.simps) simp
  show "last rebuild_events = Exec (ffmpeg_cmd playlist_file output_file)"
    by (simp add: rebuild_events_def)
next
  fix w2 c fs5
  assume a: "check_and_rebuild md5 run files
        \<lparr>disk = disk w, trace = trace w @ [Enter ''get_files_sorted_by_mtime'']\<rparr> = Inr w2
      \<and> run (mpv_cmd output_file) (disk w2) = (Some c, fs5) \<and> c \<noteq> 0"
  let ?w3 = "\<lparr>disk = disk w2, trace = trace w2 @ [Stdout ''Playing combined playlist...'',
      Enter ''play_audio'']\<rparr>"
  from a have "run (mpv_cmd output_file) (disk ?w3) = (Some c, fs5)"
    by simp
  from subprocess_run_cases [of run "mpv_cmd output_file" ?w3 "Some c" fs5, OF this] a
  have "subprocess_run run (mpv_cmd output_file) ?w3 =
      Inl (CalledProcessError c (mpv_cmd output_file),
           \<lparr>disk = fs5, trace = trace w2 @ play_events @ [Exec (mpv_cmd output_file)]\<rparr>)"
    by (simp add: play_events_def)
  with iteration_files [OF assms(1,2), of md5 run] a
  show it: "iteration md5 run w =
      Inl (CalledProcessError c (mpv_cmd output_file),
           \<lparr>disk = fs5, trace = trace w2 @ play_events @ [Exec (mpv_cmd output_file)]\<rparr>)"
    by simp
  then show "main_loop md5 run w =
      Some (CalledProcessError c (mpv_cmd output_file),
            \<lparr>disk = fs5, trace = trace w2 @ play_events @ [Exec (mpv_cmd output_file)]\<rparr>)"
    by (subst main_loop.simps) simp
qed

lemma demo_world_facts:
  "get_files_sorted_by_mtime (disk demo_world) music_dir ''.wav'' = Inr [wav_a, wav_b, wav_c]"
  "calculate_checksum demo_md5 (disk demo_world) [wav_a, wav_b, wav_c] = Inr demo_digest"
  "read_previous_checksum (disk demo_world) checksum_file = Inr []"
  "rebuild_needed demo_digest [] (disk demo_world)"
  "nodes (disk demo_world) playlist_file \<noteq> Some Dir"
  "nodes (disk demo_world) checksum_file \<noteq> Some Dir"
  "trace demo_world = []"
proof -
  show "get_files_sorted_by_mtime (disk demo_world) music_dir ''.wav'' = Inr [wav_a, wav_b, wav_c]"
    by (simp add: demo_world_def demo_scan)
  show "calculate_checksum demo_md5 (disk demo_world) [wav_a, wav_b, wav_c] = Inr demo_digest"
    by (simp add: demo_world_def demo_sum demo_disk_nodes)
  show "read_previous_checksum (disk demo_world) checksum_file = Inr []"
    by (simp add: demo_world_def read_previous_checksum_missing demo_disk_nodes)
  have "length demo_digest \<noteq> length ([] :: string)"
    by (simp add: demo_digest_length)
  then have "demo_digest \<noteq> []"
    by fastforce
  then show "rebuild_needed demo_digest [] (disk demo_world)"
    by (simp add: rebuild_needed_def)
  show "nodes (disk demo_world) playlist_file \<noteq> Some Dir"
    "nodes (disk demo_world) checksum_file \<noteq> Some Dir"
    "trace demo_world = []"
    by (simp_all add: demo_world_def demo_disk_nodes)
qed

theorem subprocess_failure_ends_loop_witness:
  "get_files_sorted_by_mtime (disk demo_world) music_dir ''.wav'' = Inr [wav_a, wav_b, wav_c]
   \<and> calculate_checksum demo_md5 (disk demo_world) [wav_a, wav_b, wav_c] = Inr demo_digest
   \<and> read_previous_checksum (disk demo_world) checksum_file = Inr []
   \<and> (\<exists>w'. main_loop demo_md5 (demo_run 1 0) demo_world =
          Some (CalledProcessError 1 (ffmpeg_cmd playlist_file output_file), w'))
   \<and> (\<exists>w'. main_loop demo_md5 (demo_run 0 1) demo_world =
          Some (CalledProcessError 1 (mpv_cmd output_file), w'))"
proof -
  let ?files = "[wav_a, wav_b, wav_c]"
  let ?fs3 = "manifest_written ?files (disk demo_world)"
  let ?fs4 = "?fs3\<lparr>nodes := (nodes ?fs3)(output_file \<mapsto> File ''RIFFaRIFFbb'')\<rparr>"
  let ?w1 = "\<lparr>disk = disk demo_world, trace = trace demo_world @ [Enter ''get_files_sorted_by_mtime'']\<rparr>"
  have ne: "?files \<noteq> []"
    by simp
  note f = demo_world_facts
  note thm1 = subprocess_failure_ends_loop [OF f(1) ne f(2) f(3), of "demo_run 1 0"]
  note thm0 = subprocess_failure_ends_loop [OF f(1) ne f(2) f(3), of "demo_run 0 1"]
  have run1: "demo_run 1 0 (ffmpeg_cmd playlist_file output_file) ?fs3 = (Some 1, ?fs3)"
    by (simp add: demo_run_ffmpeg)
  from thm1 [THEN conjunct1, rule_format, of 1 ?fs3] f(4,5) run1
  have a: "\<exists>w'. main_loop demo_md5 (demo_run 1 0) demo_world =
      Some (CalledProcessError 1 (ffmpeg_cmd playlist_file output_file), w')"
    by simp
  have run0: "demo_run 0 1 (ffmpeg_cmd playlist_file output_file) (manifest_written ?files (disk ?w1))
      = (Some 0, ?fs4)"
    by (simp add: demo_run_ffmpeg)
  have cr: "\<exists>w2. check_and_rebuild demo_md5 (demo_run 0 1) ?files ?w1 = Inr w2"
    using check_and_rebuild_unfold [of demo_md5 ?w1 ?files demo_digest "[]" "demo_run 0 1"
        "Some 0" ?fs4] f(2,3,4,5,6) run0
    by (simp add: manifest_written_def scratch_paths_distinct)
  then obtain w2 where w2: "check_and_rebuild demo_md5 (demo_run 0 1) ?files ?w1 = Inr w2"
    by blast
  have "demo_run 0 1 (mpv_cmd output_file) (disk w2) = (Some 1, disk w2)"
    by (simp add: demo_run_ffmpeg)
  with thm0 [THEN conjunct2, rule_format, of w2 1 "disk w2"] w2
  have b: "\<exists>w'. main_loop demo_md5 (demo_run 0 1) demo_world =
      Some (CalledProcessError 1 (mpv_cmd output_file), w')"
    by simp
  from a b f(1,2,3) show ?thesis
    by blast
qed

lemma subprocess_run_returns:
  assumes "subprocess_run run cmd w = Inr w'"
  shows "disk w' = snd (run cmd (disk w))" and "trace w' = trace w @ [Exec cmd]"
  using assms
  by (auto simp: subprocess_run_def Let_def split: prod.splits option.splits if_splits)

lemma calculate_checksum_hex:
  assumes "hex_output md5" and "calculate_checksum md5 fs files = Inr cur"
  shows "is_hex cur"
  using assms
  by (auto simp: calculate_checksum_def calculate_checksum_chunked_def hex_output_def
      split: sum.splits)

lemma iteration_read_fails:
  assumes "get_files_sorted_by_mtime (disk w) music_dir ''.wav'' = Inr files" and "files \<noteq> []"
    and "calculate_checksum md5 (disk w) files = Inr cur"
    and "read_previous_checksum (disk w) checksum_file = Inl e"
  shows "\<exists>w'. iteration md5 run w = Inl (e, w')"
  using assms iteration_files [OF assms(1,2), of md5 run]
  by (simp add: check_and_rebuild_def Let_def enter_def)

text \<open>
  Claim C4. Let a first iteration find files, rebuild, write the new checksum and end
  normally, and let the player not write the checksum file. If the scan of the world it
  leaves finds the same files with the same checksum and the combined file exists, then
  the second iteration takes the branch without rebuild: up to the start of the player it
  changes no file, and its events are the three calls of the check, the message that
  nothing changed, and the playback. It enters neither the playlist builder nor the
  concatenation nor the checksum writer and does not start the transcoder.
\<close>

theorem second_iteration_skips_rebuild:
  assumes "hex_output md5"
    and "get_files_sorted_by_mtime (disk w) music_dir ''.wav'' = Inr files" and "files \<noteq> []"
    and "calculate_checksum md5 (disk w) files = Inr current_checksum"
    and "iteration md5 run w = Inr w'"
    and "Enter ''write_new_checksum'' \<in> set (new_events w (iteration md5 run w))"
    and "\<forall>fs. nodes (snd (run (mpv_cmd output_file) fs)) checksum_file = nodes fs checksum_file"
    and "get_files_sorted_by_mtime (disk w') music_dir ''.wav'' = Inr files"
    and "calculate_checksum md5 (disk w') files = Inr current_checksum"
    and "path_exists (disk w') output_file"
  shows "iteration md5 run w' = subprocess_run run (mpv_cmd output_file)
        \<lparr>disk = disk w', trace = trace w' @ check_events
           @ [Stdout ''No changes detected. Using existing combined audio file.''] @ play_events\<rparr>
    \<and> new_events w' (iteration md5 run w') = check_events
        @ [Stdout ''No changes detected. Using existing combined audio file.''] @ play_events
        @ [Exec (mpv_cmd output_file)]
    \<and> Enter ''generate_playlist'' \<notin> set (new_events w' (iteration md5 run w'))
    \<and> Enter ''concatenate_files'' \<notin> set (new_events w' (iteration md5 run w'))
    \<and> Enter ''write_new_checksum'' \<notin> set (new_events w' (iteration md5 run w'))
    \<and> Exec (ffmpeg_cmd playlist_file output_file) \<notin> set (new_events w' (iteration md5 run w'))"
proof -
  obtain prev where prev: "read_previous_checksum (disk w) checksum_file = Inr prev"
  proof (cases "read_previous_checksum (disk w) checksum_file")
    case (Inl e)
    from iteration_read_fails [OF assms(2,3,4) this, of run] assms(5) show ?thesis
      by simp
  next
    case (Inr p)
    then show ?thesis
      by (rule that)
  qed
  obtain rc fs4 where
    r: "run (ffmpeg_cmd playlist_file output_file) (manifest_written files (disk w)) = (rc, fs4)"
    by (cases "run (ffmpeg_cmd playlist_file output_file) (manifest_written files (disk w))")
  note ev = iteration_events [OF assms(2,3,4) prev, of run, unfolded r]
  note un = iteration_unfold [OF assms(2,3,4) prev, of run, unfolded r]
  have needed: "rebuild_needed current_checksum prev (disk w)"
    using assms(6) unfolding ev
    by (auto simp: fixed_events_members split: if_splits)
  have man: "nodes (disk w) playlist_file \<noteq> Some Dir"
    using assms(6) needed unfolding ev
    by (auto simp: fixed_events_members rebuild_events_members split: if_splits)
  have rc: "rc = Some 0"
    using assms(6) needed man unfolding ev
    by (auto simp: fixed_events_members rebuild_events_members split: if_splits option.splits)
  have nodir: "nodes fs4 checksum_file \<noteq> Some Dir"
    using assms(5) needed man rc unfolding un
    by (auto split: if_splits)
  let ?W = "\<lparr>disk = fs4\<lparr>nodes := (nodes fs4)(checksum_file \<mapsto> File current_checksum)\<rparr>,
      trace = trace w @ check_events @ rebuild_events @ [Enter ''write_new_checksum''] @ play_events\<rparr>"
  have "subprocess_run run (mpv_cmd output_file) ?W = Inr w'"
    using assms(5) needed man rc nodir unfolding un by simp
  then have "disk w' = snd (run (mpv_cmd output_file) (disk ?W))"
    by (rule subprocess_run_returns)
  with assms(7) have "nodes (disk w') checksum_file = nodes (disk ?W) checksum_file"
    by simp
  then have "nodes (disk w') checksum_file = Some (File current_checksum)"
    by simp
  then have "read_previous_checksum (disk w') checksum_file =
      Inr (strip (universal_newlines current_checksum))"
    by (rule read_previous_checksum_file)
  moreover have "is_hex current_checksum"
    using assms(1,4) by (rule calculate_checksum_hex)
  ultimately have prev': "read_previous_checksum (disk w') checksum_file = Inr current_checksum"
    by (simp add: is_hex_read_back)
  have skip: "\<not> rebuild_needed current_checksum current_checksum (disk w')"
    using assms(10) by (simp add: rebuild_needed_def)
  note ev' = iteration_events [OF assms(8,3,9) prev', of run]
  note un' = iteration_unfold [OF assms(8,3,9) prev', of run]
  from skip ev' have e: "new_events w' (iteration md5 run w') = check_events
      @ [Stdout ''No changes detected. Using existing combined audio file.''] @ play_events
      @ [Exec (mpv_cmd output_file)]"
    by simp
  from skip un' have u: "iteration md5 run w' = subprocess_run run (mpv_cmd output_file)
      \<lparr>disk = disk w', trace = trace w' @ check_events
         @ [Stdout ''No changes detected. Using existing combined audio file.''] @ play_events\<rparr>"
    by simp
  from u e show ?thesis
    by (simp add: fixed_events_members commands_distinct)
qed

theorem second_iteration_skips_rebuild_witness:
  "hex_output demo_md5
   \<and> (\<forall>fs. nodes (snd (demo_run 0 0 (mpv_cmd output_file) fs)) checksum_file = nodes fs checksum_file)
   \<and> (\<exists>w'. iteration demo_md5 (demo_run 0 0) demo_world = Inr w'
         \<and> Enter ''write_new_checksum''
              \<in> set (new_events demo_world (iteration demo_md5 (demo_run 0 0) demo_world))
         \<and> get_files_sorted_by_mtime (disk w') music_dir ''.wav'' = Inr [wav_a, wav_b, wav_c]
         \<and> calculate_checksum demo_md5 (disk w') [wav_a, wav_b, wav_c] = Inr demo_digest
         \<and> path_exists (disk w') output_file
         \<and> new_events w' (iteration demo_md5 (demo_run 0 0) w') = check_events
              @ [Stdout ''No changes detected. Using existing combined audio file.''] @ play_events
              @ [Exec (mpv_cmd output_file)]
         \<and> Enter ''generate_playlist'' \<notin> set (new_events w' (iteration demo_md5 (demo_run 0 0) w'))
         \<and> Enter ''write_new_checksum'' \<notin> set (new_events w' (iteration demo_md5 (demo_run 0 0) w'))
         \<and> Exec (ffmpeg_cmd playlist_file output_file)
              \<notin> set (new_events w' (iteration demo_md5 (demo_run 0 0) w')))"
proof -
  let ?files = "[wav_a, wav_b, wav_c]"
  let ?run = "demo_run 0 0"
  let ?fs3 = "manifest_written ?files (disk demo_world)"
  let ?fs4 = "?fs3\<lparr>nodes := (nodes ?fs3)(output_file \<mapsto> File ''RIFFaRIFFbb'')\<rparr>"
  let ?D = "?fs4\<lparr>nodes := (nodes ?fs4)(checksum_file \<mapsto> File demo_digest)\<rparr>"
  let ?W = "\<lparr>disk = ?D, trace = trace demo_world @ check_events @ rebuild_events
      @ [Enter ''write_new_checksum''] @ play_events\<rparr>"
  let ?w' = "\<lparr>disk = ?D, trace = trace ?W @ [Exec (mpv_cmd output_file)]\<rparr>"
  note f = demo_world_facts
  have ne: "?files \<noteq> []"
    by simp
  have hex: "hex_output demo_md5"
    by (rule demo_md5_hex_output)
  have player: "\<forall>fs. nodes (snd (?run (mpv_cmd output_file) fs)) checksum_file = nodes fs checksum_file"
    by (simp add: demo_run_ffmpeg)
  have r: "?run (ffmpeg_cmd playlist_file output_file) ?fs3 = (Some 0, ?fs4)"
    by (rule demo_run_ffmpeg)
  have nodir: "nodes ?fs4 checksum_file \<noteq> Some Dir"
    using f(6) by (simp add: manifest_written_def scratch_paths_distinct)
  have play: "subprocess_run ?run (mpv_cmd output_file) ?W = Inr ?w'"
    using subprocess_run_cases [of ?run "mpv_cmd output_file" ?W "Some 0" ?D]
    by (simp add: demo_run_ffmpeg)
  have first: "iteration demo_md5 ?run demo_world = Inr ?w'"
    using iteration_unfold [OF f(1) ne f(2) f(3), of ?run] f(4,5) r nodir play
    by simp
  have wrote: "Enter ''write_new_checksum''
      \<in> set (new_events demo_world (iteration demo_md5 ?run demo_world))"
    using iteration_events [OF f(1) ne f(2) f(3), of ?run] f(4,5) r nodir
    by simp
  have scan': "get_files_sorted_by_mtime (disk ?w') music_dir ''.wav'' = Inr ?files"
    by (simp add: demo_scan manifest_written_def demo_world_def)
  have cur': "calculate_checksum demo_md5 (disk ?w') ?files = Inr demo_digest"
    by (simp add: demo_sum manifest_written_def demo_world_def demo_disk_nodes wav_not_scratch)
  have artifact: "path_exists (disk ?w') output_file"
    by (simp add: path_exists_def scratch_paths_distinct)
  note c = second_iteration_skips_rebuild [OF hex f(1) ne f(2) first wrote player scan' cur' artifact]
  from c have e: "new_events ?w' (iteration demo_md5 ?run ?w') = check_events
      @ [Stdout ''No changes detected. Using existing combined audio file.''] @ play_events
      @ [Exec (mpv_cmd output_file)]"
    by (rule conjunct1 [OF conjunct2])
  from c have n1: "Enter ''generate_playlist'' \<notin> set (new_events ?w' (iteration demo_md5 ?run ?w'))"
    by (rule conjunct1 [OF conjunct2 [OF conjunct2]])
  from c have n2: "Enter ''write_new_checksum'' \<notin> set (new_events ?w' (iteration demo_md5 ?run ?w'))"
    by (rule conjunct1 [OF conjunct2 [OF conjunct2 [OF conjunct2 [OF conjunct2]]]])
  from c have n3: "Exec (ffmpeg_cmd playlist_file output_file)
      \<notin> set (new_events ?w' (iteration demo_md5 ?run ?w'))"
    by (rule conjunct2 [OF conjunct2 [OF conjunct2 [OF conjunct2 [OF conjunct2]]]])
  from first wrote scan' cur' artifact e n1 n2 n3
  have "\<exists>w'. iteration demo_md5 ?run demo_world = Inr w'
      \<and> Enter ''write_new_checksum'' \<in> set (new_events demo_world (iteration demo_md5 ?run demo_world))
      \<and> get_files_sorted_by_mtime (disk w') music_dir ''.wav'' = Inr ?files
      \<and> calculate_checksum demo_md5 (disk w') ?files = Inr demo_digest
      \<and> path_exists (disk w') output_file
      \<and> new_events w' (iteration demo_md5 ?run w') = check_events
           @ [Stdout ''No changes detected. Using existing combined audio file.''] @ play_events
           @ [Exec (mpv_cmd output_file)]
      \<and> Enter ''generate_playlist'' \<notin> set (new_events w' (iteration demo_md5 ?run w'))
      \<and> Enter ''write_new_checksum'' \<notin> set (new_events w' (iteration demo_md5 ?run w'))
      \<and> Exec (ffmpeg_cmd playlist_file output_file)
           \<notin> set (new_events w' (iteration demo_md5 ?run w'))"
    by (intro exI [of _ ?w'] conjI)
  with hex player show ?thesis
    by (intro conjI)
qed


end
